theory Spec2Isabelle
  imports Main "HOL-Library.Multiset"
begin

section \<open>Data model of deploymentPlanner.ts\<close>

text \<open>
  A JavaScript object used as a dictionary (\<open>labels\<close>, \<open>environmentVariables\<close>, the
  trigger descriptors) is a partial map from property names to values. The planner reads
  and writes string-valued properties only (\<open>labels["deployment-scheduled"]\<close>,
  \<open>eventTrigger.resource\<close>), so property values are kept as strings.
\<close>

type_synonym jsobject = "string \<rightharpoonup> string"

text \<open>
  \<open>interface CloudFunctionTrigger\<close>. A field declared with \<open>?\<close> is an option.
  \<open>labels\<close> is declared without \<open>?\<close>, but the planner reads it through \<open>?.\<close>, so
  an absent \<open>labels\<close> is part of the model. Records are values: the definitions of an
  input list are distinct objects, and two records of a region map never share an
  \<open>eventTrigger\<close> object, which is what the deep copy
  \<open>JSON.parse(JSON.stringify(trigger))\<close> of the region mapper produces.
\<close>

record CloudFunctionTrigger =
  name :: string
  sourceUploadUrl :: "string option"
  labels :: "jsobject option"
  environmentVariables :: jsobject
  entryPoint :: string
  runtime :: "string option"
  vpcConnector :: "string option"
  vpcConnectorEgressSettings :: "string option"
  ingressSettings :: "string option"
  availableMemoryMb :: "int option"
  timeout :: "int option"
  maxInstances :: "int option"
  serviceAccountEmail :: "string option"
  httpsTrigger :: "jsobject option"
  eventTrigger :: "jsobject option"
  failurePolicy :: "jsobject option"
  schedule :: "jsobject option"
  timeZone :: "string option"
  regions :: "string list option"

text \<open>
  \<open>interface RegionMap\<close>: an object keyed by region. It is kept as the list of its own
  (key, value) entries in the order \<open>for ... in\<close> and \<open>Object.entries\<close> enumerate
  them, which for keys that are not array indices is the order of first insertion
  (JavaScript enumerates array-index keys first; no theorem below depends on the order:
  the mapper's are stated by lookup, the planner's hold for every list of entries).
\<close>

type_synonym RegionMap = "(string \<times> CloudFunctionTrigger list) list"

record RegionalDeployment =
  region :: string
  sourceToken :: "string option"
  firstFunctionDeployment :: "CloudFunctionTrigger option"
  functionsToCreate :: "CloudFunctionTrigger list"
  functionsToUpdate :: "CloudFunctionTrigger list"
  schedulesToCreateOrUpdate :: "CloudFunctionTrigger list"

record DeploymentPlan =
  regionalDeployments :: "RegionalDeployment list"
  functionsToDelete :: "string list"
  schedulesToDelete :: "string list"

text \<open>
  The imported helpers \<open>functionMatchesAnyGroup\<close>, \<open>getTopicName\<close>
  (functionsDeployHelper) and \<open>deploymentTool.check\<close> are not part of the planner's
  file. They are parameters of the model: every theorem below holds for all of them.
\<close>

record Collaborators =
  functionMatchesAnyGroup :: "string \<Rightarrow> string list list \<Rightarrow> bool"
  getTopicName :: "string \<Rightarrow> string"
  deploymentToolCheck :: "jsobject option \<Rightarrow> bool"

text \<open>
  The exceptions the two functions can raise themselves are \<open>TypeError\<close>s of the
  runtime: the call \<open>regionMap[region].push(...)\<close> on a value that is not an array, and
  the assignment \<open>fn.eventTrigger.resource = ...\<close> on a record whose \<open>eventTrigger\<close> is
  undefined.
\<close>

datatype error = TypeError

section \<open>createFunctionsByRegionMap\<close>

text \<open>\<open>Array.prototype.join\<close> on an array of strings.\<close>

fun join :: "string list \<Rightarrow> string \<Rightarrow> string" where
  "join [] sep = []"
| "join [x] sep = x"
| "join (x # y # ys) sep = x @ sep @ join (y # ys) sep"

text \<open>
  \<open>const regionMap: RegionMap = {}\<close> is an object literal, so a lookup
  \<open>regionMap[region]\<close> that finds no own property goes on to \<open>Object.prototype\<close>. These are
  the property names found there (on Node.js, which runs the tool); the value of each is
  truthy, and none is an array.
\<close>

definition objectPrototypeMembers :: "string list" where
  "objectPrototypeMembers =
     [''constructor'', ''__defineGetter__'', ''__defineSetter__'', ''hasOwnProperty'',
      ''__lookupGetter__'', ''__lookupSetter__'', ''isPrototypeOf'', ''propertyIsEnumerable'',
      ''toString'', ''valueOf'', ''__proto__'', ''toLocaleString'']"

text \<open>
  The array at key \<open>r\<close> gets \<open>x\<close> pushed; a key the map does not have yet is entered
  last with the array \<open>[x]\<close>.
\<close>

fun appendAt :: "string \<Rightarrow> CloudFunctionTrigger \<Rightarrow> RegionMap \<Rightarrow> RegionMap" where
  "appendAt r x [] = [(r, [x])]"
| "appendAt r x ((k, v) # m) =
     (if k = r then (k, v @ [x]) # m else (k, v) # appendAt r x m)"

text \<open>
  Lines 75 and 76, \<open>regionMap[region] = regionMap[region] || []; regionMap[region].push(x)\<close>.
  When \<open>region\<close> is no own key but names a member of \<open>Object.prototype\<close>, the lookup
  finds that member, \<open>||\<close> keeps it, no array is created, and \<open>.push\<close> is not a
  function: the call throws. Otherwise the own array, or a new one, gets the record.
\<close>

definition pushRegion :: "string \<Rightarrow> CloudFunctionTrigger \<Rightarrow> RegionMap \<Rightarrow> error + RegionMap" where
  "pushRegion r x regionMap =
     (if map_of regionMap r = None \<and> r \<in> set objectPrototypeMembers then Inl TypeError
      else Inr (appendAt r x regionMap))"

text \<open>
  The body of the inner loop up to the push (lines 63 to 74): the deep copy is the
  record itself (a value), \<open>regions\<close> is deleted from the copy when present, and the
  copy's name becomes the joined path. The path is built from \<open>trigger.name\<close>.
\<close>

definition regionCopy :: "string \<Rightarrow> CloudFunctionTrigger \<Rightarrow> string \<Rightarrow> CloudFunctionTrigger" where
  "regionCopy projectId trigger r =
     (let triggerDeepCopy = trigger;
          triggerDeepCopy =
            (if regions triggerDeepCopy \<noteq> None then triggerDeepCopy\<lparr>regions := None\<rparr>
             else triggerDeepCopy)
      in triggerDeepCopy\<lparr>name :=
           join [''projects'', projectId, ''locations'', r, ''functions'', name trigger] ''/''\<rparr>)"

text \<open>The loop over \<open>trigger.regions\<close> (lines 62 to 77); it ends at the first throw.\<close>

fun pushRegions ::
  "string \<Rightarrow> CloudFunctionTrigger \<Rightarrow> string list \<Rightarrow> RegionMap \<Rightarrow> error + RegionMap" where
  "pushRegions projectId trigger [] regionMap = Inr regionMap"
| "pushRegions projectId trigger (r # rest) regionMap =
     (case pushRegion r (regionCopy projectId trigger r) regionMap of
        Inl e \<Rightarrow> Inl e
      | Inr regionMap' \<Rightarrow> pushRegions projectId trigger rest regionMap')"

text \<open>
  One iteration of the outer loop (lines 56 to 78). The test \<open>!trigger.regions\<close> is
  true only for an absent field: an array, also the empty one, is truthy. The
  assignment on line 58 writes to the caller's object, so the iteration returns the
  definition as it is after the iteration next to the region map or the error.
\<close>

definition mapTrigger ::
  "string \<Rightarrow> RegionMap \<Rightarrow> CloudFunctionTrigger \<Rightarrow> (error + RegionMap) \<times> CloudFunctionTrigger" where
  "mapTrigger projectId regionMap trigger =
     (let trigger' =
            (if regions trigger = None then trigger\<lparr>regions := Some [''us-central1'']\<rparr>
             else trigger)
      in (pushRegions projectId trigger'
            (case regions trigger' of Some rs \<Rightarrow> rs | None \<Rightarrow> [])
            regionMap,
          trigger'))"

text \<open>
  The outer loop. A throw ends it: the definitions after the one that threw are never
  looked at and stay as they were.
\<close>

fun mapTriggers ::
  "string \<Rightarrow> RegionMap \<Rightarrow> CloudFunctionTrigger list \<Rightarrow>
   (error + RegionMap) \<times> CloudFunctionTrigger list" where
  "mapTriggers projectId regionMap [] = (Inr regionMap, [])"
| "mapTriggers projectId regionMap (trigger # rest) =
     (case mapTrigger projectId regionMap trigger of
        (Inl e, trigger') \<Rightarrow> (Inl e, trigger' # rest)
      | (Inr regionMap', trigger') \<Rightarrow>
          (case mapTriggers projectId regionMap' rest of
             (result, rest') \<Rightarrow> (result, trigger' # rest')))"

text \<open>
  The result is the pair of what the call returns, the region map or the \<open>TypeError\<close>
  thrown, and of \<open>parsedTriggers\<close> as the call leaves it.
\<close>

definition createFunctionsByRegionMap ::
  "string \<Rightarrow> CloudFunctionTrigger list \<Rightarrow> (error + RegionMap) \<times> CloudFunctionTrigger list" where
  "createFunctionsByRegionMap projectId parsedTriggers = mapTriggers projectId [] parsedTriggers"

definition flattenRegionMap :: "RegionMap \<Rightarrow> CloudFunctionTrigger list" where
  "flattenRegionMap regionMap = concat (map snd regionMap)"

section \<open>createDeploymentPlan\<close>

text \<open>\<open>x?.labels?.["deployment-scheduled"] === "true"\<close> for a record \<open>x\<close> that exists.\<close>

definition isScheduledLabel :: "CloudFunctionTrigger \<Rightarrow> bool" where
  "isScheduledLabel x =
     (case labels x of None \<Rightarrow> False
      | Some l \<Rightarrow> l ''deployment-scheduled'' = Some ''true'')"

text \<open>
  The state the loops of \<open>createDeploymentPlan\<close> work on: the reassigned parameter
  \<open>existingFunctions\<close>, the plan under construction and the current region's fragment.
\<close>

record PlanState =
  existingFunctions :: "CloudFunctionTrigger list"
  deployment :: DeploymentPlan
  regionalDeployment :: RegionalDeployment

text \<open>
  Lines 132 to 140. A scheduled function gets its trigger resource set (a
  \<open>TypeError\<close> without an \<open>eventTrigger\<close> object) and is pushed to the region's
  schedules; otherwise the schedule of a matching existing function labelled as
  scheduled is put on the global delete list. The function is returned as the
  assignment leaves it: the pushes that follow push that same object.
\<close>

definition planSchedule ::
  "Collaborators \<Rightarrow> CloudFunctionTrigger option \<Rightarrow> PlanState \<Rightarrow> CloudFunctionTrigger \<Rightarrow>
   error + (CloudFunctionTrigger \<times> PlanState)" where
  "planSchedule c matchingExistingFunction st fn =
     (let isMatchingExisitingFnScheduled =
            (case matchingExistingFunction of None \<Rightarrow> False | Some m \<Rightarrow> isScheduledLabel m)
      in if schedule fn \<noteq> None then
           (case eventTrigger fn of
              None \<Rightarrow> Inl TypeError
            | Some et \<Rightarrow>
                (let fn' = fn\<lparr>eventTrigger := Some (et(''resource'' \<mapsto> getTopicName c (name fn)))\<rparr>
                 in Inr (fn', st\<lparr>regionalDeployment := (regionalDeployment st)
                      \<lparr>schedulesToCreateOrUpdate :=
                         schedulesToCreateOrUpdate (regionalDeployment st) @ [fn']\<rparr>\<rparr>)))
         else if isMatchingExisitingFnScheduled then
           (case matchingExistingFunction of
              None \<Rightarrow> Inr (fn, st)
            | Some m \<Rightarrow>
                Inr (fn, st\<lparr>deployment := (deployment st)
                      \<lparr>schedulesToDelete := schedulesToDelete (deployment st) @ [name m]\<rparr>\<rparr>))
         else Inr (fn, st))"

text \<open>The body of the loop over a region's functions (lines 121 to 151).\<close>

definition planFunction ::
  "Collaborators \<Rightarrow> string list list \<Rightarrow> PlanState \<Rightarrow> CloudFunctionTrigger \<Rightarrow> error + PlanState" where
  "planFunction c filters st fn =
     (if functionMatchesAnyGroup c (name fn) filters then
        (let matchingExistingFunction =
               find (\<lambda>exFn. name exFn = name fn) (existingFunctions st)
         in case planSchedule c matchingExistingFunction st fn of
              Inl e \<Rightarrow> Inl e
            | Inr (fn', st') \<Rightarrow>
                (case matchingExistingFunction of
                   None \<Rightarrow>
                     Inr (st'\<lparr>regionalDeployment := (regionalDeployment st')
                       \<lparr>functionsToCreate := functionsToCreate (regionalDeployment st') @ [fn']\<rparr>\<rparr>)
                 | Some m \<Rightarrow>
                     Inr (st'\<lparr>regionalDeployment := (regionalDeployment st')
                            \<lparr>functionsToUpdate :=
                               functionsToUpdate (regionalDeployment st') @ [fn']\<rparr>,
                          existingFunctions :=
                            filter (\<lambda>exFn. name exFn \<noteq> name fn') (existingFunctions st')\<rparr>)))
      else Inr st)"

fun planFunctions ::
  "Collaborators \<Rightarrow> string list list \<Rightarrow> PlanState \<Rightarrow> CloudFunctionTrigger list \<Rightarrow> error + PlanState" where
  "planFunctions c filters st [] = Inr st"
| "planFunctions c filters st (fn # rest) =
     (case planFunction c filters st fn of
        Inl e \<Rightarrow> Inl e
      | Inr st' \<Rightarrow> planFunctions c filters st' rest)"

text \<open>
  The body of the loop over the regions (lines 113 to 153). The fragment of the region
  before is no longer referenced; the new one starts empty.
\<close>

definition planRegion ::
  "Collaborators \<Rightarrow> string list list \<Rightarrow> PlanState \<Rightarrow> string \<times> CloudFunctionTrigger list \<Rightarrow>
   error + PlanState" where
  "planRegion c filters st entry =
     (let st0 = st\<lparr>regionalDeployment :=
            \<lparr>region = fst entry, sourceToken = None, firstFunctionDeployment = None,
             functionsToCreate = [], functionsToUpdate = [], schedulesToCreateOrUpdate = []\<rparr>\<rparr>;
          localFunctionsInRegion = snd entry
      in case planFunctions c filters st0 localFunctionsInRegion of
           Inl e \<Rightarrow> Inl e
         | Inr st' \<Rightarrow>
             Inr (st'\<lparr>deployment := (deployment st')
               \<lparr>regionalDeployments :=
                  regionalDeployments (deployment st') @ [regionalDeployment st']\<rparr>\<rparr>))"

fun planRegions ::
  "Collaborators \<Rightarrow> string list list \<Rightarrow> PlanState \<Rightarrow> RegionMap \<Rightarrow> error + PlanState" where
  "planRegions c filters st [] = Inr st"
| "planRegions c filters st (entry # rest) =
     (case planRegion c filters st entry of
        Inl e \<Rightarrow> Inl e
      | Inr st' \<Rightarrow> planRegions c filters st' rest)"

text \<open>
  The state before the first region. The region fragment is a local of the loop body
  and does not exist yet; \<open>planRegion\<close> overwrites the placeholder.
\<close>

definition initialState :: "CloudFunctionTrigger list \<Rightarrow> PlanState" where
  "initialState existing =
     \<lparr>existingFunctions = existing,
      deployment = \<lparr>regionalDeployments = [], functionsToDelete = [], schedulesToDelete = []\<rparr>,
      regionalDeployment =
        \<lparr>region = [], sourceToken = None, firstFunctionDeployment = None,
         functionsToCreate = [], functionsToUpdate = [], schedulesToCreateOrUpdate = []\<rparr>\<rparr>"

text \<open>Lines 158 to 174: the deletion pass over what is left of \<open>existingFunctions\<close>.\<close>

definition planDeletions :: "Collaborators \<Rightarrow> string list list \<Rightarrow> PlanState \<Rightarrow> DeploymentPlan" where
  "planDeletions c filters st =
     (let toDelete =
            filter (\<lambda>fn. if filters \<noteq> [] then functionMatchesAnyGroup c (name fn) filters else True)
              (filter (\<lambda>fn. deploymentToolCheck c (labels fn)) (existingFunctions st));
          d = (deployment st)\<lparr>functionsToDelete := map name toDelete\<rparr>
      in d\<lparr>schedulesToDelete :=
             schedulesToDelete d @ map name (filter isScheduledLabel toDelete)\<rparr>)"

definition createDeploymentPlan ::
  "Collaborators \<Rightarrow> RegionMap \<Rightarrow> CloudFunctionTrigger list \<Rightarrow> string list list \<Rightarrow>
   error + DeploymentPlan" where
  "createDeploymentPlan c functionsInSourceByRegion existingFunctions0 filters =
     (case planRegions c filters (initialState existingFunctions0) functionsInSourceByRegion of
        Inl e \<Rightarrow> Inl e
      | Inr st \<Rightarrow> Inr (planDeletions c filters st))"

section \<open>Notions used in the statements\<close>

text \<open>
  \<open>regionMap[r] || []\<close>: the list a region map holds for a region, empty when the
  region is not a key.
\<close>

definition regionList :: "RegionMap \<Rightarrow> string \<Rightarrow> CloudFunctionTrigger list" where
  "regionList regionMap r = (case map_of regionMap r of None \<Rightarrow> [] | Some v \<Rightarrow> v)"

text \<open>
  The region list a definition is projected to, in the words of the specification as
  the code realises them: the \<open>regions\<close> field when it is present, the single default
  region otherwise. It is compared below with what \<open>createFunctionsByRegionMap\<close> does.
\<close>

definition effectiveRegions :: "CloudFunctionTrigger \<Rightarrow> string list" where
  "effectiveRegions trigger =
     (case regions trigger of None \<Rightarrow> [''us-central1''] | Some rs \<Rightarrow> rs)"

text \<open>
  A definition none of whose effective regions names a member of \<open>Object.prototype\<close>:
  its iteration of the mapper's loop does not throw.
\<close>

definition storable :: "CloudFunctionTrigger \<Rightarrow> bool" where
  "storable trigger = (\<forall>r\<in>set (effectiveRegions trigger). r \<notin> set objectPrototypeMembers)"

text \<open>A region map none of whose own keys names a member of \<open>Object.prototype\<close>.\<close>

definition plainKeys :: "RegionMap \<Rightarrow> bool" where
  "plainKeys regionMap = (\<forall>k\<in>set objectPrototypeMembers. map_of regionMap k = None)"

text \<open>
  The region map after the iteration for one definition, and for a list of definitions,
  when no push throws.
\<close>

definition stored :: "string \<Rightarrow> CloudFunctionTrigger \<Rightarrow> RegionMap \<Rightarrow> RegionMap" where
  "stored projectId trigger regionMap =
     fold (\<lambda>r m. appendAt r (regionCopy projectId trigger r) m) (effectiveRegions trigger) regionMap"

definition storedAll :: "string \<Rightarrow> CloudFunctionTrigger list \<Rightarrow> RegionMap \<Rightarrow> RegionMap" where
  "storedAll projectId triggers regionMap = fold (stored projectId) triggers regionMap"

text \<open>The path assembled on lines 67 to 74.\<close>

definition qualifiedName :: "string \<Rightarrow> string \<Rightarrow> string \<Rightarrow> string" where
  "qualifiedName projectId r localName =
     join [''projects'', projectId, ''locations'', r, ''functions'', localName] ''/''"

text \<open>The test of line 123: the filters select the function.\<close>

definition selected :: "Collaborators \<Rightarrow> string list list \<Rightarrow> CloudFunctionTrigger \<Rightarrow> bool" where
  "selected c filters fn = functionMatchesAnyGroup c (name fn) filters"

text \<open>
  A desired function as the planner pushes it to its lists: after the assignment of
  line 134 when it has a schedule (and an \<open>eventTrigger\<close> to assign to), unchanged
  otherwise.
\<close>

definition rewriteTrigger :: "Collaborators \<Rightarrow> CloudFunctionTrigger \<Rightarrow> CloudFunctionTrigger" where
  "rewriteTrigger c fn =
     (if schedule fn \<noteq> None then
        (case eventTrigger fn of
           None \<Rightarrow> fn
         | Some et \<Rightarrow> fn\<lparr>eventTrigger := Some (et(''resource'' \<mapsto> getTopicName c (name fn)))\<rparr>)
      else fn)"

text \<open>
  What the loop body for one region map entry leaves in its \<open>RegionalDeployment\<close>, given
  the names \<open>known\<close> of the existing functions at the start of the call: the schedules are
  the selected scheduled functions in order, the create and update lists together hold
  the selected functions, an updated function has a known name, and a selected function
  with an unknown name is created.
\<close>

definition regionPlanned ::
  "Collaborators \<Rightarrow> string list list \<Rightarrow> string set \<Rightarrow> string \<times> CloudFunctionTrigger list \<Rightarrow>
   RegionalDeployment \<Rightarrow> bool" where
  "regionPlanned c filters known entry rd =
     (region rd = fst entry \<and>
      schedulesToCreateOrUpdate rd =
        map (rewriteTrigger c)
          (filter (\<lambda>fn. selected c filters fn \<and> schedule fn \<noteq> None) (snd entry)) \<and>
      mset (functionsToCreate rd) + mset (functionsToUpdate rd) =
        mset (map (rewriteTrigger c) (filter (selected c filters) (snd entry))) \<and>
      name ` set (functionsToUpdate rd) \<subseteq> known \<and>
      (\<forall>fn\<in>set (snd entry). selected c filters fn \<and> name fn \<notin> known \<longrightarrow>
         rewriteTrigger c fn \<in> set (functionsToCreate rd)))"

text \<open>All records of all create and update lists of a plan, region by region.\<close>

definition planTargets :: "DeploymentPlan \<Rightarrow> CloudFunctionTrigger list" where
  "planTargets plan =
     concat (map (\<lambda>rd. functionsToCreate rd @ functionsToUpdate rd) (regionalDeployments plan))"

section \<open>Concrete inputs\<close>

text \<open>
  Stand-ins for the three imported helpers, used only to evaluate the planner on concrete
  inputs: an empty filter list selects every name, a filter group selects the name it
  spells out; the topic is the name behind a fixed prefix; a record is owned when its
  \<open>deployment-tool\<close> label is \<open>cli-firebase\<close>.
\<close>

definition sampleCollaborators :: Collaborators where
  "sampleCollaborators =
     \<lparr>functionMatchesAnyGroup = (\<lambda>fnName filterGroups. filterGroups = [] \<or> [fnName] \<in> set filterGroups),
      getTopicName = (\<lambda>fnName. ''firebase-schedule-'' @ fnName),
      deploymentToolCheck =
        (\<lambda>l. case l of None \<Rightarrow> False | Some m \<Rightarrow> m ''deployment-tool'' = Some ''cli-firebase'')\<rparr>"

text \<open>A definition with every optional field absent and no labels set.\<close>

definition sampleTrigger :: "string \<Rightarrow> CloudFunctionTrigger" where
  "sampleTrigger n =
     \<lparr>name = n, sourceUploadUrl = None, labels = Some Map.empty, environmentVariables = Map.empty,
      entryPoint = n, runtime = None, vpcConnector = None, vpcConnectorEgressSettings = None,
      ingressSettings = None, availableMemoryMb = None, timeout = None, maxInstances = None,
      serviceAccountEmail = None, httpsTrigger = None, eventTrigger = None, failurePolicy = None,
      schedule = None, timeZone = None, regions = None\<rparr>"

definition sampleName :: "string \<Rightarrow> string" where
  "sampleName n = ''projects/p/locations/us-central1/functions/'' @ n"

text \<open>
  Desired records \<open>a\<close> (no schedule) and \<open>b\<close> (scheduled), \<open>c\<close> (scheduled, without an
  \<open>eventTrigger\<close>), a scheduled variant of \<open>a\<close>; existing records \<open>a\<close> (owned, labelled
  as scheduled) and \<open>d\<close> (owned, in no source).
\<close>

definition desiredA :: CloudFunctionTrigger where
  "desiredA = sampleTrigger (sampleName ''a'')"

definition scheduledB :: CloudFunctionTrigger where
  "scheduledB = (sampleTrigger (sampleName ''b''))
     \<lparr>eventTrigger := Some Map.empty, schedule := Some [''schedule'' \<mapsto> ''every 5 minutes'']\<rparr>"

definition scheduledC :: CloudFunctionTrigger where
  "scheduledC = (sampleTrigger (sampleName ''c''))
     \<lparr>schedule := Some [''schedule'' \<mapsto> ''every 5 minutes'']\<rparr>"

definition scheduledA :: CloudFunctionTrigger where
  "scheduledA = desiredA
     \<lparr>eventTrigger := Some Map.empty, schedule := Some [''schedule'' \<mapsto> ''every 5 minutes'']\<rparr>"

definition existingA :: CloudFunctionTrigger where
  "existingA = (sampleTrigger (sampleName ''a''))
     \<lparr>labels := Some [''deployment-tool'' \<mapsto> ''cli-firebase'', ''deployment-scheduled'' \<mapsto> ''true'']\<rparr>"

definition existingD :: CloudFunctionTrigger where
  "existingD = (sampleTrigger (sampleName ''d''))
     \<lparr>labels := Some [''deployment-tool'' \<mapsto> ''cli-firebase'']\<rparr>"

definition twiceA :: CloudFunctionTrigger where
  "twiceA = (sampleTrigger ''a'')\<lparr>regions := Some [''us-central1'', ''us-central1'']\<rparr>"

definition twiceMap :: RegionMap where
  "twiceMap =
     [(''us-central1'',
       [(sampleTrigger ''a'')\<lparr>name := sampleName ''a''\<rparr>,
        (sampleTrigger ''a'')\<lparr>name := sampleName ''a''\<rparr>])]"

definition sampleDesired :: RegionMap where
  "sampleDesired = [(''us-central1'', [desiredA, scheduledB])]"

definition sampleExisting :: "CloudFunctionTrigger list" where
  "sampleExisting = [existingA, existingD]"

text \<open>The plans the planner returns on these inputs.\<close>

definition emptyRegion :: "string \<Rightarrow> RegionalDeployment" where
  "emptyRegion r =
     \<lparr>region = r, sourceToken = None, firstFunctionDeployment = None,
      functionsToCreate = [], functionsToUpdate = [], schedulesToCreateOrUpdate = []\<rparr>"

definition rewrittenB :: CloudFunctionTrigger where
  "rewrittenB = scheduledB
     \<lparr>eventTrigger := Some [''resource'' \<mapsto> ''firebase-schedule-'' @ sampleName ''b'']\<rparr>"

definition rewrittenA :: CloudFunctionTrigger where
  "rewrittenA = scheduledA
     \<lparr>eventTrigger := Some [''resource'' \<mapsto> ''firebase-schedule-'' @ sampleName ''a'']\<rparr>"

definition samplePlan :: DeploymentPlan where
  "samplePlan =
     \<lparr>regionalDeployments =
        [(emptyRegion ''us-central1'')
           \<lparr>functionsToCreate := [rewrittenB], functionsToUpdate := [desiredA],
            schedulesToCreateOrUpdate := [rewrittenB]\<rparr>],
      functionsToDelete = [sampleName ''d''],
      schedulesToDelete = [sampleName ''a'']\<rparr>"

definition onlyAPlan :: DeploymentPlan where
  "onlyAPlan =
     \<lparr>regionalDeployments =
        [(emptyRegion ''us-central1'')\<lparr>functionsToUpdate := [desiredA]\<rparr>],
      functionsToDelete = [],
      schedulesToDelete = [sampleName ''a'']\<rparr>"

definition emptyPlan :: DeploymentPlan where
  "emptyPlan =
     \<lparr>regionalDeployments = [emptyRegion ''us-central1''],
      functionsToDelete = [], schedulesToDelete = []\<rparr>"

definition clashPlan :: DeploymentPlan where
  "clashPlan =
     \<lparr>regionalDeployments =
        [(emptyRegion ''us-central1'')
           \<lparr>functionsToCreate := [rewrittenA], functionsToUpdate := [desiredA],
            schedulesToCreateOrUpdate := [rewrittenA]\<rparr>],
      functionsToDelete = [],
      schedulesToDelete = [sampleName ''a'']\<rparr>"

definition twicePlan :: DeploymentPlan where
  "twicePlan =
     \<lparr>regionalDeployments =
        [(emptyRegion ''us-central1'')
           \<lparr>functionsToCreate :=
              [(sampleTrigger ''a'')\<lparr>name := sampleName ''a''\<rparr>,
               (sampleTrigger ''a'')\<lparr>name := sampleName ''a''\<rparr>]\<rparr>],
      functionsToDelete = [], schedulesToDelete = []\<rparr>"

section \<open>Evaluation\<close>

text \<open>The defining equations that evaluate the two functions on a concrete input.\<close>

lemmas plan_defs = createDeploymentPlan_def initialState_def planRegion_def planFunction_def
  planSchedule_def planDeletions_def isScheduledLabel_def Let_def

lemmas mapper_defs = createFunctionsByRegionMap_def mapTrigger_def pushRegion_def regionCopy_def
  objectPrototypeMembers_def Let_def

section \<open>Properties of createFunctionsByRegionMap\<close>

lemma plainKeys_Nil: "plainKeys []"
  by (simp add: plainKeys_def)

lemma map_of_appendAt:
  "map_of (appendAt r x m) = (map_of m)(r \<mapsto> regionList m r @ [x])"
  by (induction m) (auto simp: regionList_def fun_eq_iff)

lemma plainKeys_appendAt:
  "plainKeys m \<Longrightarrow> r \<notin> set objectPrototypeMembers \<Longrightarrow> plainKeys (appendAt r x m)"
  unfolding plainKeys_def map_of_appendAt by auto

lemma pushRegion_plain:
  "plainKeys m \<Longrightarrow>
   pushRegion r x m =
     (if r \<in> set objectPrototypeMembers then Inl TypeError else Inr (appendAt r x m))"
  by (simp add: pushRegion_def plainKeys_def)

lemma pushRegions_plain:
  "plainKeys m \<Longrightarrow>
   pushRegions p t rs m =
     (if \<forall>r\<in>set rs. r \<notin> set objectPrototypeMembers
      then Inr (fold (\<lambda>r m. appendAt r (regionCopy p t r) m) rs m)
      else Inl TypeError)"
proof (induction rs arbitrary: m)
  case Nil
  then show ?case by simp
next
  case (Cons r rs)
  show ?case
  proof (cases "r \<in> set objectPrototypeMembers")
    case True
    then show ?thesis
      using Cons.prems by (simp add: pushRegion_plain)
  next
    case False
    then have "plainKeys (appendAt r (regionCopy p t r) m)"
      using Cons.prems by (simp add: plainKeys_appendAt)
    then show ?thesis
      using False Cons.prems Cons.IH [of "appendAt r (regionCopy p t r) m"]
      by (simp add: pushRegion_plain)
  qed
qed

lemma plainKeys_fold:
  "plainKeys m \<Longrightarrow> \<forall>r\<in>set rs. r \<notin> set objectPrototypeMembers \<Longrightarrow>
   plainKeys (fold (\<lambda>r m. appendAt r (f r) m) rs m)"
  by (induction rs arbitrary: m) (simp_all add: plainKeys_appendAt)

lemma map_of_fold_appendAt:
  "map_of (fold (\<lambda>r m. appendAt r (f r) m) rs m) r' =
     (if r' \<in> set rs then Some (regionList m r' @ replicate (count_list rs r') (f r'))
      else map_of m r')"
proof (induction rs arbitrary: m)
  case Nil
  then show ?case by simp
next
  case (Cons a rs)
  show ?case
    by (simp add: Cons.IH map_of_appendAt regionList_def replicate_app_Cons_same)
qed

lemma regionCopy_eq:
  "regionCopy p t r = t\<lparr>regions := None, name := qualifiedName p r (name t)\<rparr>"
  by (cases "regions t") (simp_all add: regionCopy_def qualifiedName_def del: join.simps)

lemma regionCopy_regions_update:
  "regionCopy p (t\<lparr>regions := x\<rparr>) r = regionCopy p t r"
  by (simp add: regionCopy_eq)

lemma storable_default: "regions t = None \<Longrightarrow> storable t"
  by (simp add: storable_def effectiveRegions_def objectPrototypeMembers_def)

lemma plainKeys_stored: "plainKeys m \<Longrightarrow> storable t \<Longrightarrow> plainKeys (stored p t m)"
  unfolding stored_def storable_def by (rule plainKeys_fold)

lemma map_of_stored:
  "map_of (stored p t m) r =
     (if r \<in> set (effectiveRegions t)
      then Some (regionList m r @ replicate (count_list (effectiveRegions t) r) (regionCopy p t r))
      else map_of m r)"
  unfolding stored_def by (rule map_of_fold_appendAt)

lemma regionList_stored:
  "regionList (stored p t m) r =
     regionList m r @ replicate (count_list (effectiveRegions t) r) (regionCopy p t r)"
  by (simp add: regionList_def map_of_stored count_list_0_iff)

lemma regionList_storedAll:
  "regionList (storedAll p ts m) r =
     regionList m r @
     concat (map (\<lambda>t. replicate (count_list (effectiveRegions t) r) (regionCopy p t r)) ts)"
  by (induction ts arbitrary: m) (simp_all add: storedAll_def regionList_stored)

lemma map_of_storedAll:
  "map_of (storedAll p ts m) r =
     (if \<exists>t\<in>set ts. r \<in> set (effectiveRegions t)
      then Some (regionList m r @
        concat (map (\<lambda>t. replicate (count_list (effectiveRegions t) r) (regionCopy p t r)) ts))
      else map_of m r)"
proof (induction ts arbitrary: m)
  case Nil
  then show ?case by (simp add: storedAll_def)
next
  case (Cons t ts)
  have unfold: "storedAll p (t # ts) m = storedAll p ts (stored p t m)"
    by (simp add: storedAll_def)
  have d: "concat (map (\<lambda>t. replicate (count_list (effectiveRegions t) r) (regionCopy p t r)) ts) = []"
    if "\<not> (\<exists>t\<in>set ts. r \<in> set (effectiveRegions t))"
    using that by (simp add: count_list_0_iff)
  show ?case
    unfolding unfold Cons.IH [of "stored p t m"]
    using d by (auto simp: map_of_stored regionList_stored count_list_0_iff)
qed

lemma plainKeys_storedAll:
  "plainKeys m \<Longrightarrow> list_all storable ts \<Longrightarrow> plainKeys (storedAll p ts m)"
  by (induction ts arbitrary: m) (simp_all add: storedAll_def plainKeys_stored)

lemma mapTrigger_snd:
  "snd (mapTrigger p m t) =
     (if regions t = None then t\<lparr>regions := Some [''us-central1'']\<rparr> else t)"
  by (simp add: mapTrigger_def Let_def)

lemma mapTrigger_fst:
  assumes "plainKeys m"
  shows "fst (mapTrigger p m t) = (if storable t then Inr (stored p t m) else Inl TypeError)"
proof -
  have "fst (mapTrigger p m t) =
      pushRegions p (if regions t = None then t\<lparr>regions := Some [''us-central1'']\<rparr> else t)
        (effectiveRegions t) m"
    by (cases "regions t") (simp_all add: mapTrigger_def Let_def effectiveRegions_def)
  also have "\<dots> = (if storable t then Inr (stored p t m) else Inl TypeError)"
    unfolding pushRegions_plain [OF assms] storable_def stored_def
    by (cases "regions t") (simp_all add: regionCopy_regions_update)
  finally show ?thesis .
qed

lemma mapTriggers_fst:
  "plainKeys m \<Longrightarrow>
   fst (mapTriggers p m ts) =
     (if list_all storable ts then Inr (storedAll p ts m) else Inl TypeError)"
proof (induction ts arbitrary: m)
  case Nil
  then show ?case by (simp add: storedAll_def)
next
  case (Cons t ts)
  obtain res t1 where s1: "mapTrigger p m t = (res, t1)"
    by (cases "mapTrigger p m t")
  have res: "res = (if storable t then Inr (stored p t m) else Inl TypeError)"
    using mapTrigger_fst [OF Cons.prems, of p t] s1 by simp
  show ?case
  proof (cases "storable t")
    case False
    then show ?thesis
      using s1 res by simp
  next
    case True
    then have pk: "plainKeys (stored p t m)"
      using Cons.prems by (simp add: plainKeys_stored)
    obtain res2 ts2 where s2: "mapTriggers p (stored p t m) ts = (res2, ts2)"
      by (cases "mapTriggers p (stored p t m) ts")
    have "res2 = (if list_all storable ts then Inr (storedAll p ts (stored p t m)) else Inl TypeError)"
      using Cons.IH [OF pk] s2 by simp
    then show ?thesis
      using True s1 s2 res by (simp add: storedAll_def)
  qed
qed

lemma mapTriggers_snd:
  "plainKeys m \<Longrightarrow>
   snd (mapTriggers p m ts) =
     map (\<lambda>t. if regions t = None then t\<lparr>regions := Some [''us-central1'']\<rparr> else t)
       (takeWhile storable ts) @ dropWhile storable ts"
proof (induction ts arbitrary: m)
  case Nil
  then show ?case by simp
next
  case (Cons t ts)
  obtain res t1 where s1: "mapTrigger p m t = (res, t1)"
    by (cases "mapTrigger p m t")
  have res: "res = (if storable t then Inr (stored p t m) else Inl TypeError)"
    using mapTrigger_fst [OF Cons.prems, of p t] s1 by simp
  have t1: "t1 = (if regions t = None then t\<lparr>regions := Some [''us-central1'']\<rparr> else t)"
    using mapTrigger_snd [of p m t] s1 by simp
  show ?case
  proof (cases "storable t")
    case False
    then have "regions t \<noteq> None"
      using storable_default by blast
    then show ?thesis
      using False s1 res t1 by simp
  next
    case True
    then have pk: "plainKeys (stored p t m)"
      using Cons.prems by (simp add: plainKeys_stored)
    obtain res2 ts2 where s2: "mapTriggers p (stored p t m) ts = (res2, ts2)"
      by (cases "mapTriggers p (stored p t m) ts")
    have "ts2 =
        map (\<lambda>t. if regions t = None then t\<lparr>regions := Some [''us-central1'']\<rparr> else t)
          (takeWhile storable ts) @ dropWhile storable ts"
      using Cons.IH [OF pk] s2 by simp
    then show ?thesis
      using True s1 s2 res t1 by simp
  qed
qed

lemma qualifiedName_inj: "qualifiedName p r1 n = qualifiedName p r2 n \<longleftrightarrow> r1 = r2"
  by (simp add: qualifiedName_def)

lemma count_list_concat_ge:
  "t \<in> set ts \<Longrightarrow> count_list (f t) x \<le> count_list (concat (map f ts)) x"
  by (induction ts) auto

lemma count_list_replicate_same: "count_list (replicate n x) x = n"
  by (induction n) auto

subsection \<open>The effective region list\<close>

text \<open>
  C1 as stated does not hold: it takes an empty \<open>regions\<close> list to fall back to the
  default region. The test \<open>!trigger.regions\<close> is false for the empty array, the loop
  over it runs zero times, and the definition contributes no record: the returned map is
  empty.
\<close>

theorem empty_regions_counterexample:
  "regions ((sampleTrigger ''a'')\<lparr>regions := Some []\<rparr>) = Some [] \<and>
   fst (createFunctionsByRegionMap ''p'' [(sampleTrigger ''a'')\<lparr>regions := Some []\<rparr>]) = Inr []"
  by (simp add: mapper_defs sampleTrigger_def)

text \<open>
  C1, amended: the effective region list of an input definition is its \<open>regions\<close> field
  whenever the field is present (also when it is empty) and \<open>us-central1\<close> alone when it
  is absent. When no effective region of any definition names a member of
  \<open>Object.prototype\<close>, \<open>createFunctionsByRegionMap\<close> returns a map that holds at every
  region \<open>r\<close> exactly the copies of the definitions whose effective region list contains
  \<open>r\<close>, one copy per occurrence of \<open>r\<close>, in input order (each copy without \<open>regions\<close> and
  with the fully-qualified name), and that has \<open>r\<close> as a key only if some definition lists
  it; a definition with the empty list contributes no record. When some effective region
  names a member of \<open>Object.prototype\<close>, the call throws a \<open>TypeError\<close> and returns no map.
\<close>

theorem effective_regions:
  "(if list_all storable ts
    then \<exists>m. fst (createFunctionsByRegionMap projectId ts) = Inr m \<and>
           (\<forall>r. map_of m r =
              (if \<exists>t\<in>set ts. r \<in> set (effectiveRegions t)
               then Some (concat (map (\<lambda>t. replicate (count_list (effectiveRegions t) r)
                            (t\<lparr>regions := None, name := qualifiedName projectId r (name t)\<rparr>)) ts))
               else None))
    else fst (createFunctionsByRegionMap projectId ts) = Inl TypeError)"
  unfolding createFunctionsByRegionMap_def mapTriggers_fst [OF plainKeys_Nil]
  by (simp add: map_of_storedAll regionList_def regionCopy_eq)

text \<open>
  A definition without \<open>regions\<close> gives one record under \<open>us-central1\<close>; a definition for
  the region \<open>constructor\<close> makes the call throw.
\<close>

theorem effective_regions_witness:
  "(\<exists>m. fst (createFunctionsByRegionMap ''p'' [sampleTrigger ''a'']) = Inr m \<and>
      map_of m ''us-central1'' = Some [(sampleTrigger ''a'')\<lparr>name := sampleName ''a''\<rparr>]) \<and>
   fst (createFunctionsByRegionMap ''p'' [(sampleTrigger ''a'')\<lparr>regions := Some [''constructor'']\<rparr>]) =
     Inl TypeError"
proof -
  have a: "list_all storable [sampleTrigger ''a'']"
    by (simp add: storable_def effectiveRegions_def objectPrototypeMembers_def sampleTrigger_def)
  have b: "\<not> list_all storable [(sampleTrigger ''a'')\<lparr>regions := Some [''constructor'']\<rparr>]"
    by (simp add: storable_def effectiveRegions_def objectPrototypeMembers_def sampleTrigger_def)
  from effective_regions [of "[sampleTrigger ''a'']" "''p''"] a
  obtain m where m: "fst (createFunctionsByRegionMap ''p'' [sampleTrigger ''a'']) = Inr m"
    and r: "\<forall>r. map_of m r =
              (if \<exists>t\<in>set [sampleTrigger ''a'']. r \<in> set (effectiveRegions t)
               then Some (concat (map (\<lambda>t. replicate (count_list (effectiveRegions t) r)
                            (t\<lparr>regions := None, name := qualifiedName ''p'' r (name t)\<rparr>))
                        [sampleTrigger ''a'']))
               else None)"
    by auto
  have "map_of m ''us-central1'' = Some [(sampleTrigger ''a'')\<lparr>name := sampleName ''a''\<rparr>]"
    using r [rule_format, of "''us-central1''"]
    by (simp add: effectiveRegions_def qualifiedName_def sampleTrigger_def sampleName_def)
  moreover have "fst (createFunctionsByRegionMap ''p''
      [(sampleTrigger ''a'')\<lparr>regions := Some [''constructor'']\<rparr>]) = Inl TypeError"
    using effective_regions [of "[(sampleTrigger ''a'')\<lparr>regions := Some [''constructor'']\<rparr>]" "''p''"] b
    by simp
  ultimately show ?thesis
    using m by blast
qed

subsection \<open>The input after the call\<close>

text \<open>
  C2 as stated does not hold: line 58 assigns to the caller's object. A definition
  without \<open>regions\<close> has \<open>regions = ["us-central1"]\<close> after the call.
\<close>

theorem input_mutated_counterexample:
  "regions (sampleTrigger ''a'') = None \<and>
   map regions (snd (createFunctionsByRegionMap ''p'' [sampleTrigger ''a''])) =
     [Some [''us-central1'']]"
  by (simp add: mapper_defs sampleTrigger_def)

text \<open>
  C2, amended: after \<open>createFunctionsByRegionMap\<close> the input list (of distinct
  definition objects) has the same length and order, and the only change to its
  definitions is that those which lacked \<open>regions\<close> and were reached by the loop have
  \<open>regions = ["us-central1"]\<close>. The loop reaches every
  definition when the call returns, which it does exactly when no effective region of any
  definition names a member of \<open>Object.prototype\<close>; otherwise the call throws at the first
  definition with such a region, and that definition and all after it are unchanged.
\<close>

theorem input_after_call:
  "snd (createFunctionsByRegionMap projectId ts) =
     map (\<lambda>t. if regions t = None then t\<lparr>regions := Some [''us-central1'']\<rparr> else t)
       (takeWhile storable ts) @ dropWhile storable ts \<and>
   ((\<exists>m. fst (createFunctionsByRegionMap projectId ts) = Inr m) \<longleftrightarrow> list_all storable ts)"
  unfolding createFunctionsByRegionMap_def mapTriggers_fst [OF plainKeys_Nil]
    mapTriggers_snd [OF plainKeys_Nil]
  by simp

text \<open>
  Two definitions, the first without \<open>regions\<close>, the second with one region: the call
  returns and the first is changed. A definition for the region \<open>constructor\<close> before one
  without \<open>regions\<close>: the call throws and both are unchanged.
\<close>

theorem input_after_call_witness:
  "snd (createFunctionsByRegionMap ''p''
      [sampleTrigger ''a'', (sampleTrigger ''b'')\<lparr>regions := Some [''europe-west1'']\<rparr>]) =
     [(sampleTrigger ''a'')\<lparr>regions := Some [''us-central1'']\<rparr>,
      (sampleTrigger ''b'')\<lparr>regions := Some [''europe-west1'']\<rparr>] \<and>
   snd (createFunctionsByRegionMap ''p''
      [(sampleTrigger ''a'')\<lparr>regions := Some [''constructor'']\<rparr>, sampleTrigger ''b'']) =
     [(sampleTrigger ''a'')\<lparr>regions := Some [''constructor'']\<rparr>, sampleTrigger ''b'']"
  using input_after_call [of "''p''"
      "[sampleTrigger ''a'', (sampleTrigger ''b'')\<lparr>regions := Some [''europe-west1'']\<rparr>]"]
    input_after_call [of "''p''"
      "[(sampleTrigger ''a'')\<lparr>regions := Some [''constructor'']\<rparr>, sampleTrigger ''b'']"]
  by (simp add: storable_def effectiveRegions_def objectPrototypeMembers_def sampleTrigger_def)

subsection \<open>Repeated regions\<close>

text \<open>
  C10 as stated does not hold for every region identifier: a region that names a member
  of \<open>Object.prototype\<close> makes the first push throw, so a definition listing
  \<open>constructor\<close> twice yields no record at all.
\<close>

theorem repeated_prototype_region_counterexample:
  "regions ((sampleTrigger ''a'')\<lparr>regions := Some [''constructor'', ''constructor'']\<rparr>) =
     Some [''constructor'', ''constructor''] \<and>
   fst (createFunctionsByRegionMap ''p''
      [(sampleTrigger ''a'')\<lparr>regions := Some [''constructor'', ''constructor'']\<rparr>]) =
     Inl TypeError"
  by (simp add: mapper_defs sampleTrigger_def)

text \<open>
  C10, amended: when \<open>createFunctionsByRegionMap\<close> returns a map, the list it holds at a
  region \<open>r\<close> is, definition by definition in input order, one copy of the definition's
  record per occurrence of \<open>r\<close> in its effective region list, with no deduplication and
  nothing else; so a definition whose \<open>regions\<close> list names \<open>r\<close> several times has at
  least that many equal records, of one fully-qualified name, at \<open>r\<close>. The names of the
  copies of one definition for two regions are equal only if the regions are.
\<close>

theorem repeated_region:
  assumes "fst (createFunctionsByRegionMap projectId ts) = Inr m"
  shows "regionList m r =
           concat (map (\<lambda>t. replicate (count_list (effectiveRegions t) r)
                     (regionCopy projectId t r)) ts) \<and>
         (\<forall>t\<in>set ts. \<forall>rs. regions t = Some rs \<longrightarrow>
            count_list rs r \<le> count_list (regionList m r) (regionCopy projectId t r)) \<and>
         (\<forall>t r'. name (regionCopy projectId t r) = name (regionCopy projectId t r') \<longleftrightarrow> r = r')"
proof (intro conjI ballI allI impI)
  have m: "m = storedAll projectId ts []"
    using assms mapTriggers_fst [OF plainKeys_Nil, of projectId ts]
    by (simp add: createFunctionsByRegionMap_def split: if_splits)
  let ?f = "\<lambda>t. replicate (count_list (effectiveRegions t) r) (regionCopy projectId t r)"
  show eq: "regionList m r = concat (map ?f ts)"
    unfolding m regionList_storedAll by (simp add: regionList_def)
  show "count_list rs r \<le> count_list (regionList m r) (regionCopy projectId t r)"
    if "t \<in> set ts" and "regions t = Some rs" for t rs
  proof -
    have "effectiveRegions t = rs"
      using that(2) by (simp add: effectiveRegions_def)
    then have "count_list (?f t) (regionCopy projectId t r) = count_list rs r"
      by (simp add: count_list_replicate_same)
    then show ?thesis
      unfolding eq using count_list_concat_ge [OF that(1), of ?f "regionCopy projectId t r"]
      by simp
  qed
  show "name (regionCopy projectId t r) = name (regionCopy projectId t r') \<longleftrightarrow> r = r'" for t r'
    by (simp add: regionCopy_eq qualifiedName_inj)
qed

text \<open>A definition listing \<open>us-central1\<close> twice gives two records of one name.\<close>

theorem repeated_region_witness:
  "fst (createFunctionsByRegionMap ''p'' [twiceA]) = Inr twiceMap \<and>
   regions twiceA = Some [''us-central1'', ''us-central1''] \<and>
   regionList twiceMap ''us-central1'' =
     [regionCopy ''p'' twiceA ''us-central1'', regionCopy ''p'' twiceA ''us-central1''] \<and>
   name (regionCopy ''p'' twiceA ''us-central1'') = sampleName ''a''"
proof -
  have h: "fst (createFunctionsByRegionMap ''p'' [twiceA]) = Inr twiceMap"
    by (simp add: mapper_defs twiceA_def twiceMap_def sampleTrigger_def sampleName_def)
  have r: "regions twiceA = Some [''us-central1'', ''us-central1'']"
    by (simp add: twiceA_def)
  have e: "effectiveRegions twiceA = [''us-central1'', ''us-central1'']"
    by (simp add: effectiveRegions_def twiceA_def)
  have n: "name (regionCopy ''p'' twiceA ''us-central1'') = sampleName ''a''"
    by (simp add: regionCopy_def twiceA_def sampleTrigger_def sampleName_def)
  have "regionList twiceMap ''us-central1'' =
      concat (map (\<lambda>t. replicate (count_list (effectiveRegions t) ''us-central1'')
                (regionCopy ''p'' t ''us-central1'')) [twiceA])"
    using repeated_region [OF h, of "''us-central1''"] by blast
  then have "regionList twiceMap ''us-central1'' =
      [regionCopy ''p'' twiceA ''us-central1'', regionCopy ''p'' twiceA ''us-central1'']"
    by (simp add: e numeral_2_eq_2)
  then show ?thesis
    using h r n by simp
qed

section \<open>One function, one region, all regions\<close>

lemma name_rewriteTrigger: "name (rewriteTrigger c fn) = name fn"
  by (simp add: rewriteTrigger_def split: option.splits)

lemma schedule_rewriteTrigger: "schedule (rewriteTrigger c fn) = schedule fn"
  by (simp add: rewriteTrigger_def split: option.splits)

lemma rewriteTrigger_scheduled:
  "schedule fn \<noteq> None \<Longrightarrow> eventTrigger fn = Some et \<Longrightarrow>
   rewriteTrigger c fn = fn\<lparr>eventTrigger := Some (et(''resource'' \<mapsto> getTopicName c (name fn)))\<rparr>"
  by (simp add: rewriteTrigger_def)

lemma find_name_None: "(find (\<lambda>e. name e = n) xs = None) = (n \<notin> name ` set xs)"
  by (auto simp: find_None_iff)

lemma filter_absent: "n \<notin> name ` set xs \<Longrightarrow> filter (\<lambda>e. name e \<noteq> n) xs = xs"
  by (induction xs) auto

lemma selected_eq: "selected c filters = (\<lambda>fn. functionMatchesAnyGroup c (name fn) filters)"
  by (rule ext) (simp add: selected_def)

lemma planSchedule_Inl:
  "(planSchedule c m st fn = Inl e) = (schedule fn \<noteq> None \<and> eventTrigger fn = None)"
  by (cases e) (auto simp: planSchedule_def Let_def split: option.splits)

lemma planSchedule_Inr:
  assumes "planSchedule c m st fn = Inr (fn', st')"
  shows "fn' = rewriteTrigger c fn"
    and "existingFunctions st' = existingFunctions st"
    and "region (regionalDeployment st') = region (regionalDeployment st)"
    and "functionsToCreate (regionalDeployment st') = functionsToCreate (regionalDeployment st)"
    and "functionsToUpdate (regionalDeployment st') = functionsToUpdate (regionalDeployment st)"
    and "schedulesToCreateOrUpdate (regionalDeployment st') =
           schedulesToCreateOrUpdate (regionalDeployment st) @
             (if schedule fn \<noteq> None then [rewriteTrigger c fn] else [])"
    and "regionalDeployments (deployment st') = regionalDeployments (deployment st)"
    and "functionsToDelete (deployment st') = functionsToDelete (deployment st)"
    and "schedulesToDelete (deployment st') = schedulesToDelete (deployment st) @
           (case m of None \<Rightarrow> []
            | Some x \<Rightarrow> if schedule fn = None \<and> isScheduledLabel x then [name x] else [])"
  using assms
  by (auto simp: planSchedule_def rewriteTrigger_def Let_def split: option.splits if_splits)

lemma planFunction_skip: "\<not> selected c filters fn \<Longrightarrow> planFunction c filters st fn = Inr st"
  by (simp add: planFunction_def selected_def)

lemma planFunction_selected:
  "selected c filters fn \<Longrightarrow>
   planFunction c filters st fn =
     (case planSchedule c (find (\<lambda>exFn. name exFn = name fn) (existingFunctions st)) st fn of
        Inl e \<Rightarrow> Inl e
      | Inr (fn', st') \<Rightarrow>
          (case find (\<lambda>exFn. name exFn = name fn) (existingFunctions st) of
             None \<Rightarrow>
               Inr (st'\<lparr>regionalDeployment := (regionalDeployment st')
                 \<lparr>functionsToCreate := functionsToCreate (regionalDeployment st') @ [fn']\<rparr>\<rparr>)
           | Some m \<Rightarrow>
               Inr (st'\<lparr>regionalDeployment := (regionalDeployment st')
                      \<lparr>functionsToUpdate := functionsToUpdate (regionalDeployment st') @ [fn']\<rparr>,
                    existingFunctions :=
                      filter (\<lambda>exFn. name exFn \<noteq> name fn') (existingFunctions st')\<rparr>)))"
  by (simp add: planFunction_def selected_def Let_def)

lemma planFunction_Inl:
  "(planFunction c filters st fn = Inl e) =
     (selected c filters fn \<and> schedule fn \<noteq> None \<and> eventTrigger fn = None)"
proof (cases "selected c filters fn")
  case False
  then show ?thesis by (simp add: planFunction_skip)
next
  case True
  let ?m = "find (\<lambda>exFn. name exFn = name fn) (existingFunctions st)"
  show ?thesis
  proof (cases "planSchedule c ?m st fn")
    case (Inl e')
    then have "schedule fn \<noteq> None \<and> eventTrigger fn = None"
      using planSchedule_Inl [of c ?m st fn e'] by simp
    moreover have "e' = e" by (cases e, cases e') simp
    ultimately show ?thesis
      using True Inl by (simp add: planFunction_selected)
  next
    case (Inr p)
    then have "\<not> (schedule fn \<noteq> None \<and> eventTrigger fn = None)"
      using planSchedule_Inl [of c ?m st fn TypeError] by simp
    then show ?thesis
      using True Inr by (simp add: planFunction_selected split: prod.splits option.splits)
  qed
qed

lemma planFunction_Inr:
  assumes "planFunction c filters st fn = Inr st'" and "selected c filters fn"
  shows "existingFunctions st' = filter (\<lambda>e. name e \<noteq> name fn) (existingFunctions st)"
    and "schedulesToCreateOrUpdate (regionalDeployment st') =
           schedulesToCreateOrUpdate (regionalDeployment st) @
             (if schedule fn \<noteq> None then [rewriteTrigger c fn] else [])"
    and "functionsToCreate (regionalDeployment st') =
           functionsToCreate (regionalDeployment st) @
             (if name fn \<in> name ` set (existingFunctions st) then [] else [rewriteTrigger c fn])"
    and "functionsToUpdate (regionalDeployment st') =
           functionsToUpdate (regionalDeployment st) @
             (if name fn \<in> name ` set (existingFunctions st) then [rewriteTrigger c fn] else [])"
    and "region (regionalDeployment st') = region (regionalDeployment st)"
    and "regionalDeployments (deployment st') = regionalDeployments (deployment st)"
    and "functionsToDelete (deployment st') = functionsToDelete (deployment st)"
    and "set (schedulesToDelete (deployment st')) \<subseteq>
           set (schedulesToDelete (deployment st)) \<union> (if schedule fn = None then {name fn} else {})"
proof -
  let ?m = "find (\<lambda>exFn. name exFn = name fn) (existingFunctions st)"
  from assms obtain fn' st1 where ps: "planSchedule c ?m st fn = Inr (fn', st1)"
    by (cases "planSchedule c ?m st fn") (auto simp: planFunction_selected)
  note r = planSchedule_Inr [OF ps]
  have mname: "name x = name fn" if "?m = Some x" for x
    using that by (auto simp: find_Some_iff)
  have sd: "set (schedulesToDelete (deployment st1)) \<subseteq>
           set (schedulesToDelete (deployment st)) \<union> (if schedule fn = None then {name fn} else {})"
  proof (cases ?m)
    case None
    then show ?thesis using r(9) by simp
  next
    case (Some x)
    then have "name x = name fn" by (rule mname)
    then show ?thesis using r(9) Some by auto
  qed
  have rd: "region (regionalDeployment st1) = region (regionalDeployment st)"
      "functionsToCreate (regionalDeployment st1) = functionsToCreate (regionalDeployment st)"
      "functionsToUpdate (regionalDeployment st1) = functionsToUpdate (regionalDeployment st)"
      "schedulesToCreateOrUpdate (regionalDeployment st1) =
         schedulesToCreateOrUpdate (regionalDeployment st) @
           (if schedule fn \<noteq> None then [rewriteTrigger c fn] else [])"
    using r(3,4,5,6) by simp_all
  have dp: "regionalDeployments (deployment st1) = regionalDeployments (deployment st)"
      "functionsToDelete (deployment st1) = functionsToDelete (deployment st)"
    using r(7,8) by simp_all
  have goal: "existingFunctions st' = filter (\<lambda>e. name e \<noteq> name fn) (existingFunctions st) \<and>
     schedulesToCreateOrUpdate (regionalDeployment st') =
       schedulesToCreateOrUpdate (regionalDeployment st1) \<and>
     functionsToCreate (regionalDeployment st') =
       functionsToCreate (regionalDeployment st1) @
         (if name fn \<in> name ` set (existingFunctions st) then [] else [fn']) \<and>
     functionsToUpdate (regionalDeployment st') =
       functionsToUpdate (regionalDeployment st1) @
         (if name fn \<in> name ` set (existingFunctions st) then [fn'] else []) \<and>
     region (regionalDeployment st') = region (regionalDeployment st1) \<and>
     deployment st' = deployment st1"
  proof (cases ?m)
    case None
    then have notin: "name fn \<notin> name ` set (existingFunctions st)"
      by (simp add: find_name_None)
    have "st' = st1\<lparr>regionalDeployment := (regionalDeployment st1)
                 \<lparr>functionsToCreate := functionsToCreate (regionalDeployment st1) @ [fn']\<rparr>\<rparr>"
      using assms ps None by (simp add: planFunction_selected)
    then show ?thesis
      using notin r(2) by (simp add: filter_absent)
  next
    case (Some x)
    then have isin: "name fn \<in> name ` set (existingFunctions st)"
      using find_name_None [of "name fn" "existingFunctions st"] by simp
    have "st' = st1\<lparr>regionalDeployment := (regionalDeployment st1)
                   \<lparr>functionsToUpdate := functionsToUpdate (regionalDeployment st1) @ [fn']\<rparr>,
                 existingFunctions := filter (\<lambda>exFn. name exFn \<noteq> name fn') (existingFunctions st1)\<rparr>"
      using assms ps Some by (simp add: planFunction_selected)
    then show ?thesis
      using isin r(1,2) by (simp add: name_rewriteTrigger)
  qed
  show "existingFunctions st' = filter (\<lambda>e. name e \<noteq> name fn) (existingFunctions st)"
    using goal by simp
  show "schedulesToCreateOrUpdate (regionalDeployment st') =
           schedulesToCreateOrUpdate (regionalDeployment st) @
             (if schedule fn \<noteq> None then [rewriteTrigger c fn] else [])"
    using goal rd(4) by simp
  show "functionsToCreate (regionalDeployment st') =
           functionsToCreate (regionalDeployment st) @
             (if name fn \<in> name ` set (existingFunctions st) then [] else [rewriteTrigger c fn])"
    using goal rd(2) r(1) by simp
  show "functionsToUpdate (regionalDeployment st') =
           functionsToUpdate (regionalDeployment st) @
             (if name fn \<in> name ` set (existingFunctions st) then [rewriteTrigger c fn] else [])"
    using goal rd(3) r(1) by simp
  show "region (regionalDeployment st') = region (regionalDeployment st)"
    using goal rd(1) by simp
  show "regionalDeployments (deployment st') = regionalDeployments (deployment st)"
    using goal dp(1) by simp
  show "functionsToDelete (deployment st') = functionsToDelete (deployment st)"
    using goal dp(2) by simp
  show "set (schedulesToDelete (deployment st')) \<subseteq>
           set (schedulesToDelete (deployment st)) \<union> (if schedule fn = None then {name fn} else {})"
    using goal sd by simp
qed

lemma planFunction_step:
  assumes "planFunction c filters st fn = Inr st'"
  shows "existingFunctions st' =
           (if selected c filters fn
            then filter (\<lambda>e. name e \<noteq> name fn) (existingFunctions st) else existingFunctions st)"
    and "schedulesToCreateOrUpdate (regionalDeployment st') =
           schedulesToCreateOrUpdate (regionalDeployment st) @
             (if selected c filters fn \<and> schedule fn \<noteq> None then [rewriteTrigger c fn] else [])"
    and "functionsToCreate (regionalDeployment st') =
           functionsToCreate (regionalDeployment st) @
             (if selected c filters fn \<and> name fn \<notin> name ` set (existingFunctions st)
              then [rewriteTrigger c fn] else [])"
    and "functionsToUpdate (regionalDeployment st') =
           functionsToUpdate (regionalDeployment st) @
             (if selected c filters fn \<and> name fn \<in> name ` set (existingFunctions st)
              then [rewriteTrigger c fn] else [])"
    and "region (regionalDeployment st') = region (regionalDeployment st)"
    and "regionalDeployments (deployment st') = regionalDeployments (deployment st)"
    and "functionsToDelete (deployment st') = functionsToDelete (deployment st)"
    and "set (schedulesToDelete (deployment st')) \<subseteq>
           set (schedulesToDelete (deployment st)) \<union>
             (if selected c filters fn \<and> schedule fn = None then {name fn} else {})"
proof -
  show "existingFunctions st' =
           (if selected c filters fn
            then filter (\<lambda>e. name e \<noteq> name fn) (existingFunctions st) else existingFunctions st)"
    using assms planFunction_Inr(1) [of c filters st fn st'] planFunction_skip [of c filters fn st]
    by (cases "selected c filters fn") simp_all
  show "schedulesToCreateOrUpdate (regionalDeployment st') =
           schedulesToCreateOrUpdate (regionalDeployment st) @
             (if selected c filters fn \<and> schedule fn \<noteq> None then [rewriteTrigger c fn] else [])"
    using assms planFunction_Inr(2) [of c filters st fn st'] planFunction_skip [of c filters fn st]
    by (cases "selected c filters fn") simp_all
  show "functionsToCreate (regionalDeployment st') =
           functionsToCreate (regionalDeployment st) @
             (if selected c filters fn \<and> name fn \<notin> name ` set (existingFunctions st)
              then [rewriteTrigger c fn] else [])"
    using assms planFunction_Inr(3) [of c filters st fn st'] planFunction_skip [of c filters fn st]
    by (cases "selected c filters fn") simp_all
  show "functionsToUpdate (regionalDeployment st') =
           functionsToUpdate (regionalDeployment st) @
             (if selected c filters fn \<and> name fn \<in> name ` set (existingFunctions st)
              then [rewriteTrigger c fn] else [])"
    using assms planFunction_Inr(4) [of c filters st fn st'] planFunction_skip [of c filters fn st]
    by (cases "selected c filters fn") simp_all
  show "region (regionalDeployment st') = region (regionalDeployment st)"
    using assms planFunction_Inr(5) [of c filters st fn st'] planFunction_skip [of c filters fn st]
    by (cases "selected c filters fn") simp_all
  show "regionalDeployments (deployment st') = regionalDeployments (deployment st)"
    using assms planFunction_Inr(6) [of c filters st fn st'] planFunction_skip [of c filters fn st]
    by (cases "selected c filters fn") simp_all
  show "functionsToDelete (deployment st') = functionsToDelete (deployment st)"
    using assms planFunction_Inr(7) [of c filters st fn st'] planFunction_skip [of c filters fn st]
    by (cases "selected c filters fn") simp_all
  show "set (schedulesToDelete (deployment st')) \<subseteq>
           set (schedulesToDelete (deployment st)) \<union>
             (if selected c filters fn \<and> schedule fn = None then {name fn} else {})"
    using assms planFunction_Inr(8) [of c filters st fn st'] planFunction_skip [of c filters fn st]
    by (cases "selected c filters fn") simp_all
qed

lemma planFunctions_Cons_Inr:
  assumes "planFunctions c filters st (fn # rest) = Inr st'"
  obtains st1 where "planFunction c filters st fn = Inr st1"
    and "planFunctions c filters st1 rest = Inr st'"
  using assms by (cases "planFunction c filters st fn") simp_all

lemma planFunctions_existing:
  "planFunctions c filters st fns = Inr st' \<Longrightarrow>
   existingFunctions st' =
     filter (\<lambda>e. name e \<notin> name ` set (filter (selected c filters) fns)) (existingFunctions st)"
proof (induction fns arbitrary: st)
  case Nil
  then show ?case by simp
next
  case (Cons fn rest)
  from Cons.prems obtain st1 where a: "planFunction c filters st fn = Inr st1"
    and b: "planFunctions c filters st1 rest = Inr st'"
    by (rule planFunctions_Cons_Inr)
  show ?case
    using Cons.IH [OF b] planFunction_step(1) [OF a]
    by (auto intro!: filter_cong)
qed

lemma planFunctions_schedules:
  "planFunctions c filters st fns = Inr st' \<Longrightarrow>
   schedulesToCreateOrUpdate (regionalDeployment st') =
     schedulesToCreateOrUpdate (regionalDeployment st) @
       map (rewriteTrigger c) (filter (\<lambda>fn. selected c filters fn \<and> schedule fn \<noteq> None) fns)"
proof (induction fns arbitrary: st)
  case Nil
  then show ?case by simp
next
  case (Cons fn rest)
  from Cons.prems obtain st1 where a: "planFunction c filters st fn = Inr st1"
    and b: "planFunctions c filters st1 rest = Inr st'"
    by (rule planFunctions_Cons_Inr)
  show ?case
    using Cons.IH [OF b] planFunction_step(2) [OF a] by simp
qed

lemma planFunctions_mset:
  "planFunctions c filters st fns = Inr st' \<Longrightarrow>
   mset (functionsToCreate (regionalDeployment st')) + mset (functionsToUpdate (regionalDeployment st')) =
     mset (functionsToCreate (regionalDeployment st)) + mset (functionsToUpdate (regionalDeployment st)) +
       mset (map (rewriteTrigger c) (filter (selected c filters) fns))"
proof (induction fns arbitrary: st)
  case Nil
  then show ?case by simp
next
  case (Cons fn rest)
  from Cons.prems obtain st1 where a: "planFunction c filters st fn = Inr st1"
    and b: "planFunctions c filters st1 rest = Inr st'"
    by (rule planFunctions_Cons_Inr)
  show ?case
    using Cons.IH [OF b] planFunction_step(3,4) [OF a] by simp
qed

lemma planFunctions_frame:
  "planFunctions c filters st fns = Inr st' \<Longrightarrow>
   region (regionalDeployment st') = region (regionalDeployment st) \<and>
   regionalDeployments (deployment st') = regionalDeployments (deployment st) \<and>
   functionsToDelete (deployment st') = functionsToDelete (deployment st)"
proof (induction fns arbitrary: st)
  case Nil
  then show ?case by simp
next
  case (Cons fn rest)
  from Cons.prems obtain st1 where a: "planFunction c filters st fn = Inr st1"
    and b: "planFunctions c filters st1 rest = Inr st'"
    by (rule planFunctions_Cons_Inr)
  show ?case
    using Cons.IH [OF b] planFunction_step(5,6,7) [OF a] by simp
qed

lemma planFunctions_schedulesToDelete:
  "planFunctions c filters st fns = Inr st' \<Longrightarrow>
   set (schedulesToDelete (deployment st')) \<subseteq>
     set (schedulesToDelete (deployment st)) \<union>
       name ` {fn \<in> set fns. selected c filters fn \<and> schedule fn = None}"
proof (induction fns arbitrary: st)
  case Nil
  then show ?case by simp
next
  case (Cons fn rest)
  from Cons.prems obtain st1 where a: "planFunction c filters st fn = Inr st1"
    and b: "planFunctions c filters st1 rest = Inr st'"
    by (rule planFunctions_Cons_Inr)
  have "set (schedulesToDelete (deployment st1)) \<subseteq>
      set (schedulesToDelete (deployment st)) \<union>
        name ` {f \<in> set (fn # rest). selected c filters f \<and> schedule f = None}"
    using planFunction_step(8) [OF a] by (auto split: if_splits)
  moreover have "name ` {f \<in> set rest. selected c filters f \<and> schedule f = None} \<subseteq>
      name ` {f \<in> set (fn # rest). selected c filters f \<and> schedule f = None}"
    by auto
  ultimately show ?case
    using Cons.IH [OF b] by blast
qed

lemma planFunctions_update_names:
  "planFunctions c filters st fns = Inr st' \<Longrightarrow>
   name ` set (functionsToUpdate (regionalDeployment st')) \<subseteq>
     name ` set (functionsToUpdate (regionalDeployment st)) \<union> name ` set (existingFunctions st)"
proof (induction fns arbitrary: st)
  case Nil
  then show ?case by simp
next
  case (Cons fn rest)
  from Cons.prems obtain st1 where a: "planFunction c filters st fn = Inr st1"
    and b: "planFunctions c filters st1 rest = Inr st'"
    by (rule planFunctions_Cons_Inr)
  have u: "name ` set (functionsToUpdate (regionalDeployment st1)) \<subseteq>
      name ` set (functionsToUpdate (regionalDeployment st)) \<union> name ` set (existingFunctions st)"
    using planFunction_step(4) [OF a] by (auto simp: name_rewriteTrigger)
  have e: "name ` set (existingFunctions st1) \<subseteq> name ` set (existingFunctions st)"
    using planFunction_step(1) [OF a] by auto
  have "name ` set (functionsToUpdate (regionalDeployment st')) \<subseteq>
      name ` set (functionsToUpdate (regionalDeployment st1)) \<union> name ` set (existingFunctions st1)"
    by (rule Cons.IH [OF b])
  also have "\<dots> \<subseteq>
      (name ` set (functionsToUpdate (regionalDeployment st)) \<union> name ` set (existingFunctions st)) \<union>
        name ` set (existingFunctions st)"
    using u e by (rule Un_mono)
  finally show ?case by simp
qed

lemma planFunctions_create_grows:
  "planFunctions c filters st fns = Inr st' \<Longrightarrow>
   set (functionsToCreate (regionalDeployment st)) \<subseteq> set (functionsToCreate (regionalDeployment st'))"
proof (induction fns arbitrary: st)
  case Nil
  then show ?case by simp
next
  case (Cons fn rest)
  from Cons.prems obtain st1 where a: "planFunction c filters st fn = Inr st1"
    and b: "planFunctions c filters st1 rest = Inr st'"
    by (rule planFunctions_Cons_Inr)
  show ?case
    using Cons.IH [OF b] planFunction_step(3) [OF a] by auto
qed

lemma planFunctions_create:
  "planFunctions c filters st fns = Inr st' \<Longrightarrow> fn \<in> set fns \<Longrightarrow> selected c filters fn \<Longrightarrow>
   name fn \<notin> name ` set (existingFunctions st) \<Longrightarrow>
   rewriteTrigger c fn \<in> set (functionsToCreate (regionalDeployment st'))"
proof (induction fns arbitrary: st)
  case Nil
  then show ?case by simp
next
  case (Cons f rest)
  from Cons.prems(1) obtain st1 where a: "planFunction c filters st f = Inr st1"
    and b: "planFunctions c filters st1 rest = Inr st'"
    by (rule planFunctions_Cons_Inr)
  have sub: "name ` set (existingFunctions st1) \<subseteq> name ` set (existingFunctions st)"
    using planFunction_step(1) [OF a] by auto
  show ?case
  proof (cases "fn = f")
    case True
    then have "rewriteTrigger c fn \<in> set (functionsToCreate (regionalDeployment st1))"
      using planFunction_step(3) [OF a] Cons.prems(3,4) by simp
    then show ?thesis
      using planFunctions_create_grows [OF b] by blast
  next
    case False
    then have "fn \<in> set rest" using Cons.prems(2) by simp
    moreover have "name fn \<notin> name ` set (existingFunctions st1)"
      using sub Cons.prems(4) by blast
    ultimately show ?thesis
      using Cons.IH [OF b] Cons.prems(3) by simp
  qed
qed

lemma planFunctions_Inl:
  "(\<exists>e. planFunctions c filters st fns = Inl e) =
     (\<exists>fn\<in>set fns. selected c filters fn \<and> schedule fn \<noteq> None \<and> eventTrigger fn = None)"
proof (induction fns arbitrary: st)
  case Nil
  then show ?case by simp
next
  case (Cons fn rest)
  show ?case
  proof (cases "planFunction c filters st fn")
    case (Inl e)
    then show ?thesis
      using planFunction_Inl [of c filters st fn e] by auto
  next
    case (Inr st1)
    then have "\<not> (selected c filters fn \<and> schedule fn \<noteq> None \<and> eventTrigger fn = None)"
      using planFunction_Inl [of c filters st fn TypeError] by simp
    then show ?thesis
      using Inr Cons.IH [of st1] by auto
  qed
qed

lemma regionPlanned_mono:
  "regionPlanned c filters known entry rd \<Longrightarrow> known \<subseteq> known' \<Longrightarrow>
   regionPlanned c filters known' entry rd"
  unfolding regionPlanned_def by blast

lemma regionPlanned_targets:
  assumes "regionPlanned c filters known entry rd"
  shows "mset (functionsToCreate rd @ functionsToUpdate rd) =
     mset (map (rewriteTrigger c) (filter (selected c filters) (snd entry)))"
  using assms by (simp add: regionPlanned_def)

lemma planRegion_cases:
  assumes "planRegion c filters st entry = Inr st'"
  obtains st1 where
    "planFunctions c filters
       (st\<lparr>regionalDeployment :=
          \<lparr>region = fst entry, sourceToken = None, firstFunctionDeployment = None,
           functionsToCreate = [], functionsToUpdate = [], schedulesToCreateOrUpdate = []\<rparr>\<rparr>)
       (snd entry) = Inr st1"
    and "st' = st1\<lparr>deployment := (deployment st1)
           \<lparr>regionalDeployments := regionalDeployments (deployment st1) @ [regionalDeployment st1]\<rparr>\<rparr>"
  using assms by (auto simp: planRegion_def Let_def split: sum.splits)

lemma planRegion_Inr:
  assumes "planRegion c filters st entry = Inr st'"
  shows "existingFunctions st' =
           filter (\<lambda>e. name e \<notin> name ` set (filter (selected c filters) (snd entry)))
             (existingFunctions st)"
    and "\<exists>rd. regionalDeployments (deployment st') = regionalDeployments (deployment st) @ [rd] \<and>
           regionPlanned c filters (name ` set (existingFunctions st)) entry rd"
    and "functionsToDelete (deployment st') = functionsToDelete (deployment st)"
    and "set (schedulesToDelete (deployment st')) \<subseteq>
           set (schedulesToDelete (deployment st)) \<union>
             name ` {fn \<in> set (snd entry). selected c filters fn \<and> schedule fn = None}"
proof -
  let ?st0 = "st\<lparr>regionalDeployment :=
          \<lparr>region = fst entry, sourceToken = None, firstFunctionDeployment = None,
           functionsToCreate = [], functionsToUpdate = [], schedulesToCreateOrUpdate = []\<rparr>\<rparr>"
  from assms obtain st1 where pf: "planFunctions c filters ?st0 (snd entry) = Inr st1"
    and st': "st' = st1\<lparr>deployment := (deployment st1)
           \<lparr>regionalDeployments := regionalDeployments (deployment st1) @ [regionalDeployment st1]\<rparr>\<rparr>"
    by (rule planRegion_cases)
  have ex: "existingFunctions st' = existingFunctions st1"
    and rds: "regionalDeployments (deployment st') =
          regionalDeployments (deployment st1) @ [regionalDeployment st1]"
    and ftd: "functionsToDelete (deployment st') = functionsToDelete (deployment st1)"
    and sd: "schedulesToDelete (deployment st') = schedulesToDelete (deployment st1)"
    using st' by simp_all
  show "existingFunctions st' =
           filter (\<lambda>e. name e \<notin> name ` set (filter (selected c filters) (snd entry)))
             (existingFunctions st)"
    using planFunctions_existing [OF pf] ex by simp
  show "functionsToDelete (deployment st') = functionsToDelete (deployment st)"
    using planFunctions_frame [OF pf] ftd by simp
  show "set (schedulesToDelete (deployment st')) \<subseteq>
           set (schedulesToDelete (deployment st)) \<union>
             name ` {fn \<in> set (snd entry). selected c filters fn \<and> schedule fn = None}"
    using planFunctions_schedulesToDelete [OF pf] sd by simp
  have "regionPlanned c filters (name ` set (existingFunctions st)) entry (regionalDeployment st1)"
    unfolding regionPlanned_def
  proof (intro conjI ballI impI)
    show "region (regionalDeployment st1) = fst entry"
      using planFunctions_frame [OF pf] by simp
    show "schedulesToCreateOrUpdate (regionalDeployment st1) =
        map (rewriteTrigger c)
          (filter (\<lambda>fn. selected c filters fn \<and> schedule fn \<noteq> None) (snd entry))"
      using planFunctions_schedules [OF pf] by simp
    show "mset (functionsToCreate (regionalDeployment st1)) +
        mset (functionsToUpdate (regionalDeployment st1)) =
        mset (map (rewriteTrigger c) (filter (selected c filters) (snd entry)))"
      using planFunctions_mset [OF pf] by simp
    show "name ` set (functionsToUpdate (regionalDeployment st1)) \<subseteq> name ` set (existingFunctions st)"
      using planFunctions_update_names [OF pf] by simp
  next
    fix fn
    assume "fn \<in> set (snd entry)"
      and "selected c filters fn \<and> name fn \<notin> name ` set (existingFunctions st)"
    then show "rewriteTrigger c fn \<in> set (functionsToCreate (regionalDeployment st1))"
      using planFunctions_create [OF pf, of fn] by simp
  qed
  moreover have "regionalDeployments (deployment st') =
      regionalDeployments (deployment st) @ [regionalDeployment st1]"
    using planFunctions_frame [OF pf] rds by simp
  ultimately show "\<exists>rd. regionalDeployments (deployment st') = regionalDeployments (deployment st) @ [rd] \<and>
           regionPlanned c filters (name ` set (existingFunctions st)) entry rd"
    by blast
qed

lemma planRegion_Inl:
  "(\<exists>e. planRegion c filters st entry = Inl e) =
     (\<exists>fn\<in>set (snd entry). selected c filters fn \<and> schedule fn \<noteq> None \<and> eventTrigger fn = None)"
proof -
  let ?st0 = "st\<lparr>regionalDeployment :=
          \<lparr>region = fst entry, sourceToken = None, firstFunctionDeployment = None,
           functionsToCreate = [], functionsToUpdate = [], schedulesToCreateOrUpdate = []\<rparr>\<rparr>"
  have "(\<exists>e. planRegion c filters st entry = Inl e) =
      (\<exists>e. planFunctions c filters ?st0 (snd entry) = Inl e)"
    by (cases "planFunctions c filters ?st0 (snd entry)") (simp_all add: planRegion_def Let_def)
  then show ?thesis
    by (simp only: planFunctions_Inl)
qed

lemma planRegions_Cons_Inr:
  assumes "planRegions c filters st (entry # rest) = Inr st'"
  obtains st1 where "planRegion c filters st entry = Inr st1"
    and "planRegions c filters st1 rest = Inr st'"
  using assms by (cases "planRegion c filters st entry") simp_all

lemma planRegions_existing:
  "planRegions c filters st rm = Inr st' \<Longrightarrow>
   existingFunctions st' =
     filter (\<lambda>e. name e \<notin> name ` set (filter (selected c filters) (flattenRegionMap rm)))
       (existingFunctions st)"
proof (induction rm arbitrary: st)
  case Nil
  then show ?case by (simp add: flattenRegionMap_def)
next
  case (Cons entry rest)
  from Cons.prems obtain st1 where a: "planRegion c filters st entry = Inr st1"
    and b: "planRegions c filters st1 rest = Inr st'"
    by (rule planRegions_Cons_Inr)
  show ?case
    using Cons.IH [OF b] planRegion_Inr(1) [OF a]
    by (auto simp: flattenRegionMap_def intro!: filter_cong)
qed

lemma planRegions_deployments:
  "planRegions c filters st rm = Inr st' \<Longrightarrow>
   \<exists>new. regionalDeployments (deployment st') = regionalDeployments (deployment st) @ new \<and>
     list_all2 (regionPlanned c filters (name ` set (existingFunctions st))) rm new"
proof (induction rm arbitrary: st)
  case Nil
  then show ?case by simp
next
  case (Cons entry rest)
  from Cons.prems obtain st1 where a: "planRegion c filters st entry = Inr st1"
    and b: "planRegions c filters st1 rest = Inr st'"
    by (rule planRegions_Cons_Inr)
  from planRegion_Inr(2) [OF a] obtain rd where
    rd: "regionalDeployments (deployment st1) = regionalDeployments (deployment st) @ [rd]"
    and p: "regionPlanned c filters (name ` set (existingFunctions st)) entry rd"
    by blast
  from Cons.IH [OF b] obtain new where
    new: "regionalDeployments (deployment st') = regionalDeployments (deployment st1) @ new"
    and q: "list_all2 (regionPlanned c filters (name ` set (existingFunctions st1))) rest new"
    by blast
  have sub: "name ` set (existingFunctions st1) \<subseteq> name ` set (existingFunctions st)"
    using planRegion_Inr(1) [OF a] by auto
  have "list_all2 (regionPlanned c filters (name ` set (existingFunctions st))) rest new"
    using q sub by (auto elim!: list_all2_mono intro: regionPlanned_mono)
  then have "list_all2 (regionPlanned c filters (name ` set (existingFunctions st)))
      (entry # rest) (rd # new)"
    using p by simp
  moreover have "regionalDeployments (deployment st') =
      regionalDeployments (deployment st) @ (rd # new)"
    using rd new by simp
  ultimately show ?case by blast
qed

lemma planRegions_schedulesToDelete:
  "planRegions c filters st rm = Inr st' \<Longrightarrow>
   set (schedulesToDelete (deployment st')) \<subseteq>
     set (schedulesToDelete (deployment st)) \<union>
       name ` {fn \<in> set (flattenRegionMap rm). selected c filters fn \<and> schedule fn = None}"
proof (induction rm arbitrary: st)
  case Nil
  then show ?case by simp
next
  case (Cons entry rest)
  from Cons.prems obtain st1 where a: "planRegion c filters st entry = Inr st1"
    and b: "planRegions c filters st1 rest = Inr st'"
    by (rule planRegions_Cons_Inr)
  let ?A = "name ` {fn \<in> set (snd entry). selected c filters fn \<and> schedule fn = None}"
  let ?B = "name ` {fn \<in> set (flattenRegionMap rest). selected c filters fn \<and> schedule fn = None}"
  have split: "name ` {fn \<in> set (flattenRegionMap (entry # rest)).
      selected c filters fn \<and> schedule fn = None} = ?A \<union> ?B"
    by (auto simp: flattenRegionMap_def)
  have "set (schedulesToDelete (deployment st')) \<subseteq> set (schedulesToDelete (deployment st1)) \<union> ?B"
    by (rule Cons.IH [OF b])
  also have "\<dots> \<subseteq> (set (schedulesToDelete (deployment st)) \<union> ?A) \<union> ?B"
    using planRegion_Inr(4) [OF a] by (rule Un_mono) simp
  finally show ?case
    unfolding split by (simp add: Un_assoc)
qed

lemma planRegions_Inl:
  "(\<exists>e. planRegions c filters st rm = Inl e) =
     (\<exists>fn\<in>set (flattenRegionMap rm).
        selected c filters fn \<and> schedule fn \<noteq> None \<and> eventTrigger fn = None)"
proof (induction rm arbitrary: st)
  case Nil
  then show ?case by (simp add: flattenRegionMap_def)
next
  case (Cons entry rest)
  show ?case
  proof (cases "planRegion c filters st entry")
    case (Inl e)
    then have "\<exists>fn\<in>set (snd entry). selected c filters fn \<and> schedule fn \<noteq> None \<and> eventTrigger fn = None"
      using planRegion_Inl [of c filters st entry] by blast
    then show ?thesis
      using Inl by (auto simp: flattenRegionMap_def)
  next
    case (Inr st1)
    then have "\<not> (\<exists>fn\<in>set (snd entry). selected c filters fn \<and> schedule fn \<noteq> None \<and> eventTrigger fn = None)"
      using planRegion_Inl [of c filters st entry] by simp
    then show ?thesis
      using Inr Cons.IH [of st1] by (auto simp: flattenRegionMap_def)
  qed
qed

section \<open>The returned plan\<close>

lemma planDeletions_regionalDeployments:
  "regionalDeployments (planDeletions c filters st) = regionalDeployments (deployment st)"
  by (simp add: planDeletions_def Let_def)

lemma planDeletions_functionsToDelete:
  "functionsToDelete (planDeletions c filters st) =
     map name (filter (\<lambda>fn. filters \<noteq> [] \<longrightarrow> selected c filters fn)
       (filter (\<lambda>fn. deploymentToolCheck c (labels fn)) (existingFunctions st)))"
proof -
  have "(\<lambda>fn. if filters \<noteq> [] then functionMatchesAnyGroup c (name fn) filters else True) =
      (\<lambda>fn. filters \<noteq> [] \<longrightarrow> selected c filters fn)"
    by (auto simp: selected_def)
  then show ?thesis
    by (simp add: planDeletions_def Let_def)
qed

lemma planDeletions_schedulesToDelete:
  "set (schedulesToDelete (planDeletions c filters st)) \<subseteq>
     set (schedulesToDelete (deployment st)) \<union> set (functionsToDelete (planDeletions c filters st))"
  by (auto simp: planDeletions_def Let_def)

lemma initialState_simps:
  "existingFunctions (initialState ex) = ex"
  "regionalDeployments (deployment (initialState ex)) = []"
  "schedulesToDelete (deployment (initialState ex)) = []"
  by (simp_all add: initialState_def)

lemma createDeploymentPlan_cases:
  assumes "createDeploymentPlan c rm ex filters = Inr plan"
  obtains st where "planRegions c filters (initialState ex) rm = Inr st"
    and "plan = planDeletions c filters st"
  using assms by (auto simp: createDeploymentPlan_def split: sum.splits)

lemma plan_regions:
  assumes "createDeploymentPlan c rm ex filters = Inr plan"
  shows "list_all2 (regionPlanned c filters (name ` set ex)) rm (regionalDeployments plan)"
proof -
  from assms obtain st where pr: "planRegions c filters (initialState ex) rm = Inr st"
    and plan: "plan = planDeletions c filters st"
    by (rule createDeploymentPlan_cases)
  from planRegions_deployments [OF pr] show ?thesis
    by (auto simp: plan planDeletions_regionalDeployments initialState_simps)
qed

lemma plan_region_nth:
  assumes "createDeploymentPlan c rm ex filters = Inr plan" and "i < length rm"
  shows "regionPlanned c filters (name ` set ex) (rm ! i) (regionalDeployments plan ! i)"
  using list_all2_nthD [OF plan_regions [OF assms(1)] assms(2)] .

lemma plan_functionsToDelete:
  assumes "createDeploymentPlan c rm ex filters = Inr plan"
  shows "functionsToDelete plan =
     map name (filter (\<lambda>fn. filters \<noteq> [] \<longrightarrow> selected c filters fn)
       (filter (\<lambda>fn. deploymentToolCheck c (labels fn))
         (filter (\<lambda>e. name e \<notin> name ` set (filter (selected c filters) (flattenRegionMap rm))) ex)))"
proof -
  from assms obtain st where pr: "planRegions c filters (initialState ex) rm = Inr st"
    and plan: "plan = planDeletions c filters st"
    by (rule createDeploymentPlan_cases)
  show ?thesis
    unfolding plan planDeletions_functionsToDelete planRegions_existing [OF pr] initialState_simps ..
qed

lemma plan_schedulesToDelete:
  assumes "createDeploymentPlan c rm ex filters = Inr plan"
  shows "set (schedulesToDelete plan) \<subseteq>
     name ` {fn \<in> set (flattenRegionMap rm). selected c filters fn \<and> schedule fn = None} \<union>
     set (functionsToDelete plan)"
proof -
  from assms obtain st where pr: "planRegions c filters (initialState ex) rm = Inr st"
    and plan: "plan = planDeletions c filters st"
    by (rule createDeploymentPlan_cases)
  have "set (schedulesToDelete (deployment st)) \<subseteq>
      name ` {fn \<in> set (flattenRegionMap rm). selected c filters fn \<and> schedule fn = None}"
    using planRegions_schedulesToDelete [OF pr] by (simp add: initialState_simps)
  then show ?thesis
    unfolding plan using planDeletions_schedulesToDelete [of c filters st] by blast
qed

lemma targets_mset:
  "list_all2 (regionPlanned c filters known) rm rds \<Longrightarrow>
   mset (concat (map (\<lambda>rd. functionsToCreate rd @ functionsToUpdate rd) rds)) =
     mset (map (rewriteTrigger c) (filter (selected c filters) (flattenRegionMap rm)))"
proof (induction rm rds rule: list_all2_induct)
  case Nil
  then show ?case by (simp add: flattenRegionMap_def)
next
  case (Cons entry rm rd rds)
  have "flattenRegionMap (entry # rm) = snd entry @ flattenRegionMap rm"
    by (simp add: flattenRegionMap_def)
  then show ?case
    using Cons.IH regionPlanned_targets [OF Cons.hyps(1)] by simp
qed

lemma plan_targets:
  assumes "createDeploymentPlan c rm ex filters = Inr plan"
  shows "mset (planTargets plan) =
     mset (map (rewriteTrigger c) (filter (selected c filters) (flattenRegionMap rm)))"
  unfolding planTargets_def by (rule targets_mset [OF plan_regions [OF assms]])

lemma plan_target_names:
  assumes "createDeploymentPlan c rm ex filters = Inr plan"
  shows "mset (map name (planTargets plan)) =
     mset (map name (filter (selected c filters) (flattenRegionMap rm)))"
proof -
  have "mset (map name (planTargets plan)) = image_mset name (mset (planTargets plan))"
    by simp
  also have "\<dots> = image_mset name
      (mset (map (rewriteTrigger c) (filter (selected c filters) (flattenRegionMap rm))))"
    by (simp only: plan_targets [OF assms])
  also have "\<dots> = mset (map name (filter (selected c filters) (flattenRegionMap rm)))"
    by (simp add: image_mset.compositionality comp_def name_rewriteTrigger)
  finally show ?thesis .
qed

lemma target_in_plan:
  "rd \<in> set (regionalDeployments plan) \<Longrightarrow>
   g \<in> set (functionsToCreate rd) \<union> set (functionsToUpdate rd) \<Longrightarrow> g \<in> set (planTargets plan)"
  by (auto simp: planTargets_def)

lemma target_origin:
  assumes "createDeploymentPlan c rm ex filters = Inr plan" and "g \<in> set (planTargets plan)"
  shows "\<exists>fn\<in>set (flattenRegionMap rm). selected c filters fn \<and> g = rewriteTrigger c fn"
proof -
  have "g \<in># mset (planTargets plan)"
    using assms(2) by simp
  then have "g \<in># mset (map (rewriteTrigger c) (filter (selected c filters) (flattenRegionMap rm)))"
    by (simp only: plan_targets [OF assms(1)])
  then show ?thesis
    by auto
qed

lemma deleted_not_selected:
  assumes "createDeploymentPlan c rm ex filters = Inr plan"
    and "fn \<in> set (flattenRegionMap rm)" and "selected c filters fn"
  shows "name fn \<notin> set (functionsToDelete plan)"
proof
  let ?S = "{fn \<in> set (flattenRegionMap rm). selected c filters fn}"
  have "set (functionsToDelete plan) \<subseteq> name ` {e \<in> set ex. name e \<notin> name ` ?S}"
    by (auto simp: plan_functionsToDelete [OF assms(1)])
  moreover assume "name fn \<in> set (functionsToDelete plan)"
  ultimately have "name fn \<in> name ` {e \<in> set ex. name e \<notin> name ` ?S}"
    by blast
  then obtain e :: CloudFunctionTrigger where "name fn = name e" and "name e \<notin> name ` ?S"
    by blast
  then have "name fn \<notin> name ` ?S"
    by simp
  moreover have "name fn \<in> name ` ?S"
    using assms(2,3) by blast
  ultimately show False
    by simp
qed

lemma entry_in_flatten: "i < length rm \<Longrightarrow> fn \<in> set (snd (rm ! i)) \<Longrightarrow> fn \<in> set (flattenRegionMap rm)"
  by (auto simp: flattenRegionMap_def)

lemma plan_ok:
  assumes "createDeploymentPlan c rm ex filters = Inr plan"
    and "fn \<in> set (flattenRegionMap rm)" and "selected c filters fn" and "schedule fn \<noteq> None"
  shows "eventTrigger fn \<noteq> None"
proof
  assume "eventTrigger fn = None"
  then have "\<exists>fn\<in>set (flattenRegionMap rm).
      selected c filters fn \<and> schedule fn \<noteq> None \<and> eventTrigger fn = None"
    using assms(2,3,4) by blast
  then obtain e where "planRegions c filters (initialState ex) rm = Inl e"
    using planRegions_Inl [of c filters "initialState ex" rm] by blast
  then show False
    using assms(1) by (simp add: createDeploymentPlan_def)
qed

lemma listed_selected:
  assumes "createDeploymentPlan c rm ex filters = Inr plan"
    and "rd \<in> set (regionalDeployments plan)"
    and "g \<in> set (schedulesToCreateOrUpdate rd) \<union> set (functionsToCreate rd) \<union>
           set (functionsToUpdate rd)"
  shows "functionMatchesAnyGroup c (name g) filters"
proof -
  from assms(2) obtain j where j: "j < length (regionalDeployments plan)"
      "regionalDeployments plan ! j = rd"
    by (auto simp: in_set_conv_nth)
  have rp: "regionPlanned c filters (name ` set ex) (rm ! j) rd"
    using list_all2_nthD2 [OF plan_regions [OF assms(1)] j(1)] j(2) by simp
  have sched: "schedulesToCreateOrUpdate rd =
      map (rewriteTrigger c)
        (filter (\<lambda>fn. selected c filters fn \<and> schedule fn \<noteq> None) (snd (rm ! j)))"
    using rp by (simp add: regionPlanned_def)
  have targets: "mset (functionsToCreate rd @ functionsToUpdate rd) =
      mset (map (rewriteTrigger c) (filter (selected c filters) (snd (rm ! j))))"
    using rp by (rule regionPlanned_targets)
  have "\<exists>fn :: CloudFunctionTrigger. selected c filters fn \<and> g = rewriteTrigger c fn"
  proof (cases "g \<in> set (schedulesToCreateOrUpdate rd)")
    case True
    then show ?thesis
      unfolding sched by auto
  next
    case False
    then have "g \<in># mset (functionsToCreate rd @ functionsToUpdate rd)"
      using assms(3) by simp
    then have "g \<in># mset (map (rewriteTrigger c) (filter (selected c filters) (snd (rm ! j))))"
      by (simp only: targets)
    then show ?thesis
      by auto
  qed
  then obtain fn :: CloudFunctionTrigger where "selected c filters fn" and "g = rewriteTrigger c fn"
    by blast
  then show ?thesis
    by (simp add: selected_def name_rewriteTrigger)
qed

lemma schedule_in_region:
  assumes "list_all2 (regionPlanned c filters known) rm rds"
    and "rd \<in> set rds" and "g \<in> set (schedulesToCreateOrUpdate rd)"
  shows "\<exists>fn\<in>set (flattenRegionMap rm).
     selected c filters fn \<and> schedule fn \<noteq> None \<and> g = rewriteTrigger c fn"
proof -
  from assms(2) obtain i where i: "i < length rds" "rds ! i = rd"
    by (auto simp: in_set_conv_nth)
  have len: "length rm = length rds"
    using assms(1) by (rule list_all2_lengthD)
  have "regionPlanned c filters known (rm ! i) rd"
    using list_all2_nthD2 [OF assms(1) i(1)] i(2) by simp
  then have "g \<in> rewriteTrigger c `
      set (filter (\<lambda>fn. selected c filters fn \<and> schedule fn \<noteq> None) (snd (rm ! i)))"
    using assms(3) by (simp add: regionPlanned_def)
  then obtain fn where fn: "fn \<in> set (snd (rm ! i))" "selected c filters fn"
      "schedule fn \<noteq> None" "g = rewriteTrigger c fn"
    by auto
  have "rm ! i \<in> set rm"
    using i(1) len by simp
  then have "fn \<in> set (flattenRegionMap rm)"
    using fn(1) by (auto simp: flattenRegionMap_def)
  then show ?thesis
    using fn by blast
qed

section \<open>Properties of createDeploymentPlan\<close>

subsection \<open>Which functions are deleted\<close>

text \<open>
  C3: when \<open>createDeploymentPlan\<close> returns a plan, a name is in \<open>functionsToDelete\<close> if
  and only if it is the name of an existing record that no filter-selected desired record
  of any region has the name of, whose labels pass the ownership check, and whose name
  matches the filters when the filter list is not empty. With an empty filter list the
  last condition is void: every owned unmatched existing record is deleted.
\<close>

theorem functionsToDelete_iff:
  assumes "createDeploymentPlan c rm ex filters = Inr plan"
  shows "n \<in> set (functionsToDelete plan) \<longleftrightarrow>
    (\<exists>e\<in>set ex. name e = n \<and>
       \<not> (\<exists>fn\<in>set (flattenRegionMap rm).
            functionMatchesAnyGroup c (name fn) filters \<and> name fn = name e) \<and>
       deploymentToolCheck c (labels e) \<and>
       (filters \<noteq> [] \<longrightarrow> functionMatchesAnyGroup c (name e) filters))"
proof -
  let ?sel = "{fn \<in> set (flattenRegionMap rm). functionMatchesAnyGroup c (name fn) filters}"
  let ?del = "{e \<in> set ex. name e \<notin> name ` ?sel \<and> deploymentToolCheck c (labels e) \<and>
      (filters \<noteq> [] \<longrightarrow> functionMatchesAnyGroup c (name e) filters)}"
  have set_eq: "set (functionsToDelete plan) = name ` ?del"
    unfolding plan_functionsToDelete [OF assms] selected_def by (simp add: conj_commute
        conj_left_commute cong: conj_cong)
  have unmatched: "name e \<notin> name ` ?sel \<longleftrightarrow>
      \<not> (\<exists>fn\<in>set (flattenRegionMap rm).
            functionMatchesAnyGroup c (name fn) filters \<and> name fn = name e)" for e
    by (simp add: image_iff) metis
  show ?thesis
  proof
    assume "n \<in> set (functionsToDelete plan)"
    then obtain e where "e \<in> ?del" and "name e = n"
      unfolding set_eq by blast
    then show "\<exists>e\<in>set ex. name e = n \<and>
       \<not> (\<exists>fn\<in>set (flattenRegionMap rm).
            functionMatchesAnyGroup c (name fn) filters \<and> name fn = name e) \<and>
       deploymentToolCheck c (labels e) \<and>
       (filters \<noteq> [] \<longrightarrow> functionMatchesAnyGroup c (name e) filters)"
      using unmatched [of e] by blast
  next
    assume "\<exists>e\<in>set ex. name e = n \<and>
       \<not> (\<exists>fn\<in>set (flattenRegionMap rm).
            functionMatchesAnyGroup c (name fn) filters \<and> name fn = name e) \<and>
       deploymentToolCheck c (labels e) \<and>
       (filters \<noteq> [] \<longrightarrow> functionMatchesAnyGroup c (name e) filters)"
    then obtain e where e: "e \<in> set ex" "name e = n"
        "\<not> (\<exists>fn\<in>set (flattenRegionMap rm).
            functionMatchesAnyGroup c (name fn) filters \<and> name fn = name e)"
        "deploymentToolCheck c (labels e)"
        "filters \<noteq> [] \<longrightarrow> functionMatchesAnyGroup c (name e) filters"
      by blast
    have "e \<in> ?del"
      using e(1,4,5) unmatched [of e] e(3) by simp
    then show "n \<in> set (functionsToDelete plan)"
      unfolding set_eq using e(2) by blast
  qed
qed

text \<open>
  On the sample input the orphaned owned record \<open>d\<close> is deleted, and the theorem
  gives the existing record that accounts for it.
\<close>

theorem functionsToDelete_iff_witness:
  "createDeploymentPlan sampleCollaborators sampleDesired sampleExisting [] = Inr samplePlan \<and>
   sampleName ''d'' \<in> set (functionsToDelete samplePlan) \<and>
   (\<exists>e\<in>set sampleExisting. name e = sampleName ''d'' \<and>
      \<not> (\<exists>fn\<in>set (flattenRegionMap sampleDesired).
           functionMatchesAnyGroup sampleCollaborators (name fn) [] \<and> name fn = name e) \<and>
      deploymentToolCheck sampleCollaborators (labels e))"
proof -
  have h: "createDeploymentPlan sampleCollaborators sampleDesired sampleExisting [] = Inr samplePlan"
    by (simp add: plan_defs sampleCollaborators_def sampleTrigger_def sampleName_def
        emptyRegion_def desiredA_def scheduledB_def existingA_def existingD_def
        sampleDesired_def sampleExisting_def rewrittenB_def samplePlan_def)
  have d: "sampleName ''d'' \<in> set (functionsToDelete samplePlan)"
    by (simp add: samplePlan_def)
  show ?thesis
    using h d functionsToDelete_iff [OF h, of "sampleName ''d''"] by simp
qed

subsection \<open>Deleted functions are not created or updated\<close>

text \<open>
  C5: when \<open>createDeploymentPlan\<close> returns a plan, the name of a record in any region's
  \<open>functionsToCreate\<close> or \<open>functionsToUpdate\<close> list is not in \<open>functionsToDelete\<close>.
\<close>

theorem functionsToDelete_not_target:
  assumes "createDeploymentPlan c rm ex filters = Inr plan"
    and "rd \<in> set (regionalDeployments plan)"
    and "g \<in> set (functionsToCreate rd) \<union> set (functionsToUpdate rd)"
  shows "name g \<notin> set (functionsToDelete plan)"
proof -
  have "name g \<in> set (map name (planTargets plan))"
    using target_in_plan [OF assms(2,3)] by simp
  then have "name g \<in># mset (map name (planTargets plan))"
    by simp
  then have "name g \<in># mset (map name (filter (selected c filters) (flattenRegionMap rm)))"
    by (simp only: plan_target_names [OF assms(1)])
  then have "name g \<in> name ` set (filter (selected c filters) (flattenRegionMap rm))"
    by simp
  then show ?thesis
    unfolding plan_functionsToDelete [OF assms(1)] by auto
qed

text \<open>The updated function \<open>a\<close> of the sample plan is not deleted.\<close>

theorem functionsToDelete_not_target_witness:
  "createDeploymentPlan sampleCollaborators sampleDesired sampleExisting [] = Inr samplePlan \<and>
   desiredA \<in> set (functionsToUpdate (hd (regionalDeployments samplePlan))) \<and>
   name desiredA \<notin> set (functionsToDelete samplePlan)"
proof -
  have h: "createDeploymentPlan sampleCollaborators sampleDesired sampleExisting [] = Inr samplePlan"
    by (simp add: plan_defs sampleCollaborators_def sampleTrigger_def sampleName_def
        emptyRegion_def desiredA_def scheduledB_def existingA_def existingD_def
        sampleDesired_def sampleExisting_def rewrittenB_def samplePlan_def)
  have rd: "hd (regionalDeployments samplePlan) \<in> set (regionalDeployments samplePlan)"
    by (simp add: samplePlan_def)
  have g: "desiredA \<in> set (functionsToUpdate (hd (regionalDeployments samplePlan)))"
    by (simp add: samplePlan_def emptyRegion_def)
  then have g': "desiredA \<in> set (functionsToCreate (hd (regionalDeployments samplePlan))) \<union>
      set (functionsToUpdate (hd (regionalDeployments samplePlan)))"
    by simp
  show ?thesis
    using h g functionsToDelete_not_target [OF h rd g'] by simp
qed

subsection \<open>Uniqueness of the created and updated names\<close>

text \<open>
  C7 as stated does not hold: the planner matches desired against existing names and
  never compares two desired records. A definition that lists a region twice is mapped
  to two records of one name, and both are created.
\<close>

theorem targets_distinct_counterexample:
  "fst (createFunctionsByRegionMap ''p'' [twiceA]) = Inr twiceMap \<and>
   createDeploymentPlan sampleCollaborators twiceMap [] [] = Inr twicePlan \<and>
   map name (planTargets twicePlan) = [sampleName ''a'', sampleName ''a'']"
  by (simp add: plan_defs mapper_defs planTargets_def twiceA_def twiceMap_def twicePlan_def
      sampleCollaborators_def sampleTrigger_def sampleName_def emptyRegion_def)

text \<open>
  C7, amended: when \<open>createDeploymentPlan\<close> returns a plan, the names of all records in
  all \<open>functionsToCreate\<close> and \<open>functionsToUpdate\<close> lists of the plan are pairwise
  distinct (within a list, between the two lists of a region, and between regions) if and
  only if no two filter-selected desired records of the region map share a name.
\<close>

theorem targets_distinct:
  assumes "createDeploymentPlan c rm ex filters = Inr plan"
  shows "distinct (map name (planTargets plan)) \<longleftrightarrow>
         distinct (map name
           (filter (\<lambda>fn. functionMatchesAnyGroup c (name fn) filters) (flattenRegionMap rm)))"
  using mset_eq_imp_distinct_iff [OF plan_target_names [OF assms]]
  by (simp add: selected_eq)

text \<open>The sample input has the distinct names \<open>a\<close> and \<open>b\<close>.\<close>

theorem targets_distinct_witness:
  "createDeploymentPlan sampleCollaborators sampleDesired sampleExisting [] = Inr samplePlan \<and>
   map name (filter (\<lambda>fn. functionMatchesAnyGroup sampleCollaborators (name fn) [])
     (flattenRegionMap sampleDesired)) = [sampleName ''a'', sampleName ''b''] \<and>
   distinct (map name (planTargets samplePlan))"
proof -
  have h: "createDeploymentPlan sampleCollaborators sampleDesired sampleExisting [] = Inr samplePlan"
    by (simp add: plan_defs sampleCollaborators_def sampleTrigger_def sampleName_def
        emptyRegion_def desiredA_def scheduledB_def existingA_def existingD_def
        sampleDesired_def sampleExisting_def rewrittenB_def samplePlan_def)
  have n: "map name (filter (\<lambda>fn. functionMatchesAnyGroup sampleCollaborators (name fn) [])
     (flattenRegionMap sampleDesired)) = [sampleName ''a'', sampleName ''b'']"
    by (simp add: flattenRegionMap_def sampleDesired_def desiredA_def scheduledB_def
        sampleCollaborators_def sampleTrigger_def)
  have d: "distinct (map name (filter (\<lambda>fn. functionMatchesAnyGroup sampleCollaborators (name fn) [])
     (flattenRegionMap sampleDesired)))"
    unfolding n by (simp add: sampleName_def)
  show ?thesis
    using h n d targets_distinct [OF h] by simp
qed

subsection \<open>Deleted and planned schedules\<close>

text \<open>
  C6 as stated does not hold. With two desired records of one name, the first without a
  schedule and the second with one, and an existing record of that name labelled as
  scheduled, the first puts the name on \<open>schedulesToDelete\<close> and the second is pushed to
  \<open>schedulesToCreateOrUpdate\<close>.
\<close>

theorem schedule_clash_counterexample:
  "createDeploymentPlan sampleCollaborators [(''us-central1'', [desiredA, scheduledA])] [existingA] [] =
     Inr clashPlan \<and>
   schedulesToDelete clashPlan = [sampleName ''a''] \<and>
   map name (schedulesToCreateOrUpdate (hd (regionalDeployments clashPlan))) = [sampleName ''a'']"
  by (simp add: plan_defs clashPlan_def scheduledA_def rewrittenA_def desiredA_def existingA_def
      sampleCollaborators_def sampleTrigger_def sampleName_def emptyRegion_def)

text \<open>
  C6, amended: when \<open>createDeploymentPlan\<close> returns a plan and no filter-selected desired
  record without a schedule has the name of a filter-selected desired record with a
  schedule, the name of a record in any region's \<open>schedulesToCreateOrUpdate\<close> list is not
  in \<open>schedulesToDelete\<close>.
\<close>

theorem schedulesToDelete_not_scheduled:
  assumes "createDeploymentPlan c rm ex filters = Inr plan"
    and "set (map name (filter (\<lambda>fn. functionMatchesAnyGroup c (name fn) filters \<and> schedule fn = None)
              (flattenRegionMap rm))) \<inter>
         set (map name (filter (\<lambda>fn. functionMatchesAnyGroup c (name fn) filters \<and> schedule fn \<noteq> None)
              (flattenRegionMap rm))) = {}"
    and "rd \<in> set (regionalDeployments plan)"
    and "g \<in> set (schedulesToCreateOrUpdate rd)"
  shows "name g \<notin> set (schedulesToDelete plan)"
proof
  assume del: "name g \<in> set (schedulesToDelete plan)"
  let ?off = "filter (\<lambda>fn. functionMatchesAnyGroup c (name fn) filters \<and> schedule fn = None)
      (flattenRegionMap rm)"
  let ?on = "filter (\<lambda>fn. functionMatchesAnyGroup c (name fn) filters \<and> schedule fn \<noteq> None)
      (flattenRegionMap rm)"
  from schedule_in_region [OF plan_regions [OF assms(1)] assms(3,4)]
  obtain fn where fn: "fn \<in> set (flattenRegionMap rm)" "selected c filters fn"
      "schedule fn \<noteq> None" "g = rewriteTrigger c fn"
    by blast
  have gname: "name g = name fn"
    using fn(4) by (simp add: name_rewriteTrigger)
  have "fn \<in> set ?on"
    using fn(1,2,3) by (simp add: selected_def)
  then have "name fn \<in> name ` set ?on"
    by (rule imageI)
  then have on: "name g \<in> set (map name ?on)"
    by (simp only: gname set_map)
  from del plan_schedulesToDelete [OF assms(1)]
  consider (a) "name g \<in> name ` {fn \<in> set (flattenRegionMap rm). selected c filters fn \<and> schedule fn = None}"
    | (b) "name g \<in> set (functionsToDelete plan)"
    by blast
  then show False
  proof cases
    case a
    then have "name g \<in> set (map name ?off)"
      by (simp add: selected_def)
    then show False
      using on assms(2) by blast
  next
    case b
    then show False
      using deleted_not_selected [OF assms(1) fn(1,2)] gname by simp
  qed
qed

text \<open>
  In the sample plan the schedule of \<open>b\<close> is planned and that of \<open>a\<close> is deleted.
\<close>

theorem schedulesToDelete_not_scheduled_witness:
  "createDeploymentPlan sampleCollaborators sampleDesired sampleExisting [] = Inr samplePlan \<and>
   rewrittenB \<in> set (schedulesToCreateOrUpdate (hd (regionalDeployments samplePlan))) \<and>
   name rewrittenB \<notin> set (schedulesToDelete samplePlan)"
proof -
  have h: "createDeploymentPlan sampleCollaborators sampleDesired sampleExisting [] = Inr samplePlan"
    by (simp add: plan_defs sampleCollaborators_def sampleTrigger_def sampleName_def
        emptyRegion_def desiredA_def scheduledB_def existingA_def existingD_def
        sampleDesired_def sampleExisting_def rewrittenB_def samplePlan_def)
  have d: "set (map name (filter (\<lambda>fn. functionMatchesAnyGroup sampleCollaborators (name fn) [] \<and>
                schedule fn = None) (flattenRegionMap sampleDesired))) \<inter>
      set (map name (filter (\<lambda>fn. functionMatchesAnyGroup sampleCollaborators (name fn) [] \<and>
                schedule fn \<noteq> None) (flattenRegionMap sampleDesired))) = {}"
    by (simp add: flattenRegionMap_def sampleDesired_def desiredA_def scheduledB_def
        sampleCollaborators_def sampleTrigger_def sampleName_def)
  have rd: "hd (regionalDeployments samplePlan) \<in> set (regionalDeployments samplePlan)"
    by (simp add: samplePlan_def)
  have g: "rewrittenB \<in> set (schedulesToCreateOrUpdate (hd (regionalDeployments samplePlan)))"
    by (simp add: samplePlan_def emptyRegion_def)
  show ?thesis
    using h g schedulesToDelete_not_scheduled [OF h d rd g] by simp
qed

subsection \<open>Scheduled functions\<close>

text \<open>
  C4 as stated does not hold: the rewrite and the push happen inside the test of line
  123. A scheduled function that the filters do not select is skipped and is in no list.
\<close>

theorem scheduled_filtered_counterexample:
  "schedule scheduledB \<noteq> None \<and>
   createDeploymentPlan sampleCollaborators [(''us-central1'', [scheduledB])] [] [[''other'']] =
     Inr emptyPlan \<and>
   schedulesToCreateOrUpdate (hd (regionalDeployments emptyPlan)) = []"
  by (simp add: plan_defs emptyPlan_def scheduledB_def sampleCollaborators_def sampleTrigger_def
      sampleName_def emptyRegion_def)

text \<open>
  C4, amended: when \<open>createDeploymentPlan\<close> returns a plan (and no two desired records
  share one \<open>eventTrigger\<close> object, as after the mapper's deep copy), the
  \<open>schedulesToCreateOrUpdate\<close> list of the \<open>i\<close>-th regional deployment, which is the one for
  the region of the \<open>i\<close>-th region map entry, holds exactly the functions of that entry that
  the filters select and that have a schedule, in order, each with
  \<open>eventTrigger.resource\<close> set to \<open>getTopicName(fn.name)\<close>; each of them has an
  \<open>eventTrigger\<close> and is, so rewritten, also in the create or the update list of that
  regional deployment. Every record on a \<open>schedulesToCreateOrUpdate\<close>, create or update
  list of the plan has a name that the filters select, so a scheduled function that the
  filters do not select is on no list. Every record with a schedule in any create or
  update list of the plan has \<open>eventTrigger.resource\<close> equal to \<open>getTopicName\<close> of its
  name.
\<close>

theorem scheduled_rewritten:
  assumes "createDeploymentPlan c rm ex filters = Inr plan" and "i < length rm"
  shows "i < length (regionalDeployments plan) \<and>
         region (regionalDeployments plan ! i) = fst (rm ! i) \<and>
         schedulesToCreateOrUpdate (regionalDeployments plan ! i) =
           map (rewriteTrigger c)
             (filter (\<lambda>fn. functionMatchesAnyGroup c (name fn) filters \<and> schedule fn \<noteq> None)
                (snd (rm ! i))) \<and>
         (\<forall>fn\<in>set (snd (rm ! i)).
            functionMatchesAnyGroup c (name fn) filters \<and> schedule fn \<noteq> None \<longrightarrow>
            (\<exists>et. eventTrigger fn = Some et \<and>
               rewriteTrigger c fn =
                 fn\<lparr>eventTrigger := Some (et(''resource'' \<mapsto> getTopicName c (name fn)))\<rparr> \<and>
               rewriteTrigger c fn
                 \<in> set (schedulesToCreateOrUpdate (regionalDeployments plan ! i)) \<and>
               rewriteTrigger c fn
                 \<in> set (functionsToCreate (regionalDeployments plan ! i)) \<union>
                    set (functionsToUpdate (regionalDeployments plan ! i)))) \<and>
         (\<forall>rd\<in>set (regionalDeployments plan).
            \<forall>g\<in>set (schedulesToCreateOrUpdate rd) \<union> set (functionsToCreate rd) \<union>
                 set (functionsToUpdate rd).
              functionMatchesAnyGroup c (name g) filters) \<and>
         (\<forall>g\<in>set (planTargets plan). schedule g \<noteq> None \<longrightarrow>
            (\<exists>et. eventTrigger g = Some et \<and> et ''resource'' = Some (getTopicName c (name g))))"
proof (intro conjI ballI impI)
  note rp = plan_region_nth [OF assms]
  show "i < length (regionalDeployments plan)"
    using list_all2_lengthD [OF plan_regions [OF assms(1)]] assms(2) by simp
  show "region (regionalDeployments plan ! i) = fst (rm ! i)"
    using rp by (simp add: regionPlanned_def)
  show sched: "schedulesToCreateOrUpdate (regionalDeployments plan ! i) =
      map (rewriteTrigger c)
        (filter (\<lambda>fn. functionMatchesAnyGroup c (name fn) filters \<and> schedule fn \<noteq> None)
           (snd (rm ! i)))"
    using rp by (simp add: regionPlanned_def selected_def)
  show "\<exists>et. eventTrigger fn = Some et \<and>
      rewriteTrigger c fn =
        fn\<lparr>eventTrigger := Some (et(''resource'' \<mapsto> getTopicName c (name fn)))\<rparr> \<and>
      rewriteTrigger c fn \<in> set (schedulesToCreateOrUpdate (regionalDeployments plan ! i)) \<and>
      rewriteTrigger c fn
        \<in> set (functionsToCreate (regionalDeployments plan ! i)) \<union>
           set (functionsToUpdate (regionalDeployments plan ! i))"
    if mem: "fn \<in> set (snd (rm ! i))"
      and cond: "functionMatchesAnyGroup c (name fn) filters \<and> schedule fn \<noteq> None" for fn
  proof -
    have sel: "selected c filters fn"
      using cond by (simp add: selected_def)
    have infl: "fn \<in> set (flattenRegionMap rm)"
      using assms(2) mem by (rule entry_in_flatten)
    have sch: "schedule fn \<noteq> None"
      using cond by simp
    from plan_ok [OF assms(1) infl sel sch] obtain et where et: "eventTrigger fn = Some et"
      by blast
    have rw: "rewriteTrigger c fn =
        fn\<lparr>eventTrigger := Some (et(''resource'' \<mapsto> getTopicName c (name fn)))\<rparr>"
      using sch et by (rule rewriteTrigger_scheduled)
    have "fn \<in> set (filter (\<lambda>fn. functionMatchesAnyGroup c (name fn) filters \<and> schedule fn \<noteq> None)
        (snd (rm ! i)))"
      using mem cond by simp
    then have a: "rewriteTrigger c fn \<in> set (schedulesToCreateOrUpdate (regionalDeployments plan ! i))"
      unfolding sched set_map by (rule imageI)
    have "mset (functionsToCreate (regionalDeployments plan ! i) @
          functionsToUpdate (regionalDeployments plan ! i)) =
        mset (map (rewriteTrigger c) (filter (selected c filters) (snd (rm ! i))))"
      using rp by (rule regionPlanned_targets)
    moreover have "rewriteTrigger c fn \<in>#
        mset (map (rewriteTrigger c) (filter (selected c filters) (snd (rm ! i))))"
      using mem sel by simp
    ultimately have "rewriteTrigger c fn \<in>#
        mset (functionsToCreate (regionalDeployments plan ! i) @
          functionsToUpdate (regionalDeployments plan ! i))"
      by simp
    then have b: "rewriteTrigger c fn \<in> set (functionsToCreate (regionalDeployments plan ! i)) \<union>
        set (functionsToUpdate (regionalDeployments plan ! i))"
      by simp
    show ?thesis
      using et rw a b by blast
  qed
  show "functionMatchesAnyGroup c (name g) filters"
    if "rd \<in> set (regionalDeployments plan)"
      and "g \<in> set (schedulesToCreateOrUpdate rd) \<union> set (functionsToCreate rd) \<union>
             set (functionsToUpdate rd)" for rd g
    using assms(1) that by (rule listed_selected)
  show "\<exists>et. eventTrigger g = Some et \<and> et ''resource'' = Some (getTopicName c (name g))"
    if g: "g \<in> set (planTargets plan)" and sched: "schedule g \<noteq> None" for g
  proof -
    from target_origin [OF assms(1) g] obtain f where f: "f \<in> set (flattenRegionMap rm)"
        "selected c filters f" "g = rewriteTrigger c f"
      by blast
    have fs: "schedule f \<noteq> None"
      using sched f(3) by (simp add: schedule_rewriteTrigger)
    from plan_ok [OF assms(1) f(1,2) fs] obtain et where et: "eventTrigger f = Some et"
      by blast
    have "g = f\<lparr>eventTrigger := Some (et(''resource'' \<mapsto> getTopicName c (name f)))\<rparr>"
      using f(3) rewriteTrigger_scheduled [OF fs et] by simp
    then show ?thesis
      by simp
  qed
qed

text \<open>
  The scheduled function \<open>b\<close> of the sample input, with every function selected; and the
  sample input filtered down to \<open>a\<close>, where \<open>b\<close> is on no list.
\<close>

theorem scheduled_rewritten_witness:
  "createDeploymentPlan sampleCollaborators sampleDesired sampleExisting [] = Inr samplePlan \<and>
   schedule scheduledB \<noteq> None \<and>
   functionMatchesAnyGroup sampleCollaborators (name scheduledB) [] \<and>
   (\<exists>et. eventTrigger scheduledB = Some et \<and>
      scheduledB\<lparr>eventTrigger :=
          Some (et(''resource'' \<mapsto> getTopicName sampleCollaborators (name scheduledB)))\<rparr>
        \<in> set (schedulesToCreateOrUpdate (regionalDeployments samplePlan ! 0))) \<and>
   createDeploymentPlan sampleCollaborators sampleDesired sampleExisting [[sampleName ''a'']] =
     Inr onlyAPlan \<and>
   \<not> functionMatchesAnyGroup sampleCollaborators (name scheduledB) [[sampleName ''a'']] \<and>
   schedulesToCreateOrUpdate (regionalDeployments onlyAPlan ! 0) = []"
proof -
  have h: "createDeploymentPlan sampleCollaborators sampleDesired sampleExisting [] = Inr samplePlan"
    by (simp add: plan_defs sampleCollaborators_def sampleTrigger_def sampleName_def
        emptyRegion_def desiredA_def scheduledB_def existingA_def existingD_def
        sampleDesired_def sampleExisting_def rewrittenB_def samplePlan_def)
  have h': "createDeploymentPlan sampleCollaborators sampleDesired sampleExisting
      [[sampleName ''a'']] = Inr onlyAPlan"
    by (simp add: plan_defs sampleCollaborators_def sampleTrigger_def sampleName_def
        emptyRegion_def desiredA_def scheduledB_def existingA_def existingD_def
        sampleDesired_def sampleExisting_def onlyAPlan_def)
  have i: "0 < length sampleDesired"
    by (simp add: sampleDesired_def)
  have m: "scheduledB \<in> set (snd (sampleDesired ! 0))"
    by (simp add: sampleDesired_def)
  have s: "schedule scheduledB \<noteq> None"
    by (simp add: scheduledB_def)
  have f: "functionMatchesAnyGroup sampleCollaborators (name scheduledB) []"
    by (simp add: sampleCollaborators_def)
  have f': "\<not> functionMatchesAnyGroup sampleCollaborators (name scheduledB) [[sampleName ''a'']]"
    by (simp add: sampleCollaborators_def scheduledB_def sampleTrigger_def sampleName_def)
  note t = scheduled_rewritten [OF h i]
  note k = t [THEN conjunct2, THEN conjunct2, THEN conjunct2, THEN conjunct1]
  from bspec [OF k m] s f obtain et where "eventTrigger scheduledB = Some et"
    and "rewriteTrigger sampleCollaborators scheduledB =
      scheduledB\<lparr>eventTrigger :=
        Some (et(''resource'' \<mapsto> getTopicName sampleCollaborators (name scheduledB)))\<rparr>"
    and "rewriteTrigger sampleCollaborators scheduledB
      \<in> set (schedulesToCreateOrUpdate (regionalDeployments samplePlan ! 0))"
    by blast
  then have e: "\<exists>et. eventTrigger scheduledB = Some et \<and>
      scheduledB\<lparr>eventTrigger :=
          Some (et(''resource'' \<mapsto> getTopicName sampleCollaborators (name scheduledB)))\<rparr>
        \<in> set (schedulesToCreateOrUpdate (regionalDeployments samplePlan ! 0))"
    by auto
  note t' = scheduled_rewritten [OF h' i]
  have "schedulesToCreateOrUpdate (regionalDeployments onlyAPlan ! 0) =
      map (rewriteTrigger sampleCollaborators)
        (filter (\<lambda>fn. functionMatchesAnyGroup sampleCollaborators (name fn) [[sampleName ''a'']] \<and>
           schedule fn \<noteq> None) (snd (sampleDesired ! 0)))"
    using t' by blast
  then have n: "schedulesToCreateOrUpdate (regionalDeployments onlyAPlan ! 0) = []"
    by (simp add: sampleDesired_def desiredA_def scheduledB_def sampleCollaborators_def
        sampleTrigger_def sampleName_def)
  show ?thesis
    using h s f e h' f' n by blast
qed

subsection \<open>Functions that do not exist yet\<close>

text \<open>
  C8 as stated does not hold, for the same reason: a desired function with a new name
  that the filters do not select is not created.
\<close>

theorem absent_filtered_counterexample:
  "createDeploymentPlan sampleCollaborators [(''us-central1'', [desiredA])] [] [[''other'']] =
     Inr emptyPlan \<and>
   functionsToCreate (hd (regionalDeployments emptyPlan)) = []"
  by (simp add: plan_defs emptyPlan_def desiredA_def sampleCollaborators_def sampleTrigger_def
      sampleName_def emptyRegion_def)

text \<open>
  C8, amended: when \<open>createDeploymentPlan\<close> returns a plan, the \<open>functionsToCreate\<close> and
  \<open>functionsToUpdate\<close> lists of the \<open>i\<close>-th regional deployment, which is the one for the
  region of the \<open>i\<close>-th region map entry, together hold exactly the functions of that entry
  that the filters select, each as often as the entry holds it (as the planner pushes
  them; desired records share no \<open>eventTrigger\<close> object). Of these, a function whose name
  is the name of no existing record is in \<open>functionsToCreate\<close>, and no \<open>functionsToUpdate\<close>
  list of the plan holds a record of its name. Every record on a create or update list
  of the plan has a name that the filters select, so a desired function that the filters
  do not select is on neither list.
\<close>

theorem absent_is_created:
  assumes "createDeploymentPlan c rm ex filters = Inr plan" and "i < length rm"
  shows "i < length (regionalDeployments plan) \<and>
         region (regionalDeployments plan ! i) = fst (rm ! i) \<and>
         mset (functionsToCreate (regionalDeployments plan ! i)) +
         mset (functionsToUpdate (regionalDeployments plan ! i)) =
           mset (map (rewriteTrigger c)
             (filter (\<lambda>fn. functionMatchesAnyGroup c (name fn) filters) (snd (rm ! i)))) \<and>
         (\<forall>fn\<in>set (snd (rm ! i)).
            functionMatchesAnyGroup c (name fn) filters \<and> name fn \<notin> name ` set ex \<longrightarrow>
            rewriteTrigger c fn \<in> set (functionsToCreate (regionalDeployments plan ! i)) \<and>
            (\<forall>rd\<in>set (regionalDeployments plan). name fn \<notin> name ` set (functionsToUpdate rd))) \<and>
         (\<forall>rd\<in>set (regionalDeployments plan).
            \<forall>g\<in>set (functionsToCreate rd) \<union> set (functionsToUpdate rd).
              functionMatchesAnyGroup c (name g) filters)"
proof (intro conjI ballI impI)
  note rp = plan_region_nth [OF assms]
  show "i < length (regionalDeployments plan)"
    using list_all2_lengthD [OF plan_regions [OF assms(1)]] assms(2) by simp
  show "region (regionalDeployments plan ! i) = fst (rm ! i)"
    using rp by (simp add: regionPlanned_def)
  show "mset (functionsToCreate (regionalDeployments plan ! i)) +
      mset (functionsToUpdate (regionalDeployments plan ! i)) =
      mset (map (rewriteTrigger c)
        (filter (\<lambda>fn. functionMatchesAnyGroup c (name fn) filters) (snd (rm ! i))))"
    using rp by (simp add: regionPlanned_def selected_eq)
  show "rewriteTrigger c fn \<in> set (functionsToCreate (regionalDeployments plan ! i))"
    if "fn \<in> set (snd (rm ! i))"
      and "functionMatchesAnyGroup c (name fn) filters \<and> name fn \<notin> name ` set ex" for fn
  proof -
    have "selected c filters fn \<and> name fn \<notin> name ` set ex"
      using that(2) by (simp add: selected_def)
    then show ?thesis
      using rp that(1) unfolding regionPlanned_def by blast
  qed
  show "name fn \<notin> name ` set (functionsToUpdate rd)"
    if "fn \<in> set (snd (rm ! i))"
      and absent: "functionMatchesAnyGroup c (name fn) filters \<and> name fn \<notin> name ` set ex"
      and rd: "rd \<in> set (regionalDeployments plan)" for fn rd
  proof -
    from rd obtain j where j: "j < length (regionalDeployments plan)"
        "regionalDeployments plan ! j = rd"
      by (auto simp: in_set_conv_nth)
    have "regionPlanned c filters (name ` set ex) (rm ! j) rd"
      using list_all2_nthD2 [OF plan_regions [OF assms(1)] j(1)] j(2) by simp
    then have "name ` set (functionsToUpdate rd) \<subseteq> name ` set ex"
      by (simp add: regionPlanned_def)
    then show ?thesis
      using absent by blast
  qed
  show "functionMatchesAnyGroup c (name g) filters"
    if "rd \<in> set (regionalDeployments plan)"
      and "g \<in> set (functionsToCreate rd) \<union> set (functionsToUpdate rd)" for rd g
    using listed_selected [OF assms(1) that(1), of g] that(2) by blast
qed

text \<open>
  The function \<open>b\<close> of the sample input exists nowhere and is created; with the sample
  input filtered down to \<open>a\<close>, nothing is created.
\<close>

theorem absent_is_created_witness:
  "createDeploymentPlan sampleCollaborators sampleDesired sampleExisting [] = Inr samplePlan \<and>
   name scheduledB \<notin> name ` set sampleExisting \<and>
   rewriteTrigger sampleCollaborators scheduledB
     \<in> set (functionsToCreate (regionalDeployments samplePlan ! 0)) \<and>
   createDeploymentPlan sampleCollaborators sampleDesired sampleExisting [[sampleName ''a'']] =
     Inr onlyAPlan \<and>
   \<not> functionMatchesAnyGroup sampleCollaborators (name scheduledB) [[sampleName ''a'']] \<and>
   functionsToCreate (regionalDeployments onlyAPlan ! 0) = []"
proof -
  have h: "createDeploymentPlan sampleCollaborators sampleDesired sampleExisting [] = Inr samplePlan"
    by (simp add: plan_defs sampleCollaborators_def sampleTrigger_def sampleName_def
        emptyRegion_def desiredA_def scheduledB_def existingA_def existingD_def
        sampleDesired_def sampleExisting_def rewrittenB_def samplePlan_def)
  have h': "createDeploymentPlan sampleCollaborators sampleDesired sampleExisting
      [[sampleName ''a'']] = Inr onlyAPlan"
    by (simp add: plan_defs sampleCollaborators_def sampleTrigger_def sampleName_def
        emptyRegion_def desiredA_def scheduledB_def existingA_def existingD_def
        sampleDesired_def sampleExisting_def onlyAPlan_def)
  have i: "0 < length sampleDesired"
    by (simp add: sampleDesired_def)
  have m: "scheduledB \<in> set (snd (sampleDesired ! 0))"
    by (simp add: sampleDesired_def)
  have f: "functionMatchesAnyGroup sampleCollaborators (name scheduledB) []"
    by (simp add: sampleCollaborators_def)
  have f': "\<not> functionMatchesAnyGroup sampleCollaborators (name scheduledB) [[sampleName ''a'']]"
    by (simp add: sampleCollaborators_def scheduledB_def sampleTrigger_def sampleName_def)
  have a: "name scheduledB \<notin> name ` set sampleExisting"
    by (simp add: sampleExisting_def scheduledB_def existingA_def existingD_def sampleTrigger_def
        sampleName_def)
  note t = absent_is_created [OF h i]
  note k = t [THEN conjunct2, THEN conjunct2, THEN conjunct2, THEN conjunct1]
  have c: "rewriteTrigger sampleCollaborators scheduledB
      \<in> set (functionsToCreate (regionalDeployments samplePlan ! 0))"
    using bspec [OF k m] f a by blast
  note t' = absent_is_created [OF h' i]
  have "mset (functionsToCreate (regionalDeployments onlyAPlan ! 0)) +
      mset (functionsToUpdate (regionalDeployments onlyAPlan ! 0)) =
      mset (map (rewriteTrigger sampleCollaborators)
        (filter (\<lambda>fn. functionMatchesAnyGroup sampleCollaborators (name fn) [[sampleName ''a'']])
           (snd (sampleDesired ! 0))))"
    using t' by blast
  moreover have "functionsToUpdate (regionalDeployments onlyAPlan ! 0) = [desiredA]"
    by (simp add: onlyAPlan_def emptyRegion_def)
  moreover have "map (rewriteTrigger sampleCollaborators)
        (filter (\<lambda>fn. functionMatchesAnyGroup sampleCollaborators (name fn) [[sampleName ''a'']])
           (snd (sampleDesired ! 0))) = [desiredA]"
    by (simp add: sampleDesired_def desiredA_def scheduledB_def sampleCollaborators_def
        sampleTrigger_def sampleName_def rewriteTrigger_def)
  ultimately have "mset (functionsToCreate (regionalDeployments onlyAPlan ! 0)) = {#}"
    by simp
  then have n: "functionsToCreate (regionalDeployments onlyAPlan ! 0) = []"
    by simp
  show ?thesis
    using h a c h' f' n by blast
qed

subsection \<open>Totality\<close>

text \<open>
  C9 as stated does not hold: the planner validates nothing. A scheduled function
  without an \<open>eventTrigger\<close> that the filters do not select passes unnoticed and a plan is
  returned; one that is selected makes the property assignment of line 134 throw the
  runtime's \<open>TypeError\<close>.
\<close>

theorem unvalidated_counterexample:
  "schedule scheduledC \<noteq> None \<and> eventTrigger scheduledC = None \<and>
   createDeploymentPlan sampleCollaborators [(''us-central1'', [scheduledC])] [] [[''other'']] =
     Inr emptyPlan"
  by (simp add: plan_defs emptyPlan_def scheduledC_def sampleCollaborators_def sampleTrigger_def
      sampleName_def emptyRegion_def)

text \<open>
  C9, amended: \<open>createDeploymentPlan\<close> returns a plan on every input in which each desired
  function that is selected by the filters and has a schedule also has an \<open>eventTrigger\<close>;
  on every other input it ends in the \<open>TypeError\<close> of the assignment to
  \<open>fn.eventTrigger.resource\<close> and returns no plan.
\<close>

theorem createDeploymentPlan_total:
  "(if \<exists>fn\<in>set (flattenRegionMap rm).
         functionMatchesAnyGroup c (name fn) filters \<and> schedule fn \<noteq> None \<and> eventTrigger fn = None
    then createDeploymentPlan c rm ex filters = Inl TypeError
    else (\<exists>plan. createDeploymentPlan c rm ex filters = Inr plan))"
proof -
  have iff: "(\<exists>e. planRegions c filters (initialState ex) rm = Inl e) =
     (\<exists>fn\<in>set (flattenRegionMap rm).
         functionMatchesAnyGroup c (name fn) filters \<and> schedule fn \<noteq> None \<and> eventTrigger fn = None)"
    using planRegions_Inl [of c filters "initialState ex" rm] by (simp add: selected_def)
  show ?thesis
  proof (cases "planRegions c filters (initialState ex) rm")
    case (Inl e)
    moreover have "e = TypeError" by (cases e) simp
    ultimately show ?thesis
      using iff by (simp add: createDeploymentPlan_def)
  next
    case (Inr st)
    then show ?thesis
      using iff by (simp add: createDeploymentPlan_def)
  qed
qed

text \<open>
  The sample input yields a plan; the scheduled function \<open>c\<close> without an
  \<open>eventTrigger\<close>, selected by the empty filter list, yields the \<open>TypeError\<close>.
\<close>

theorem createDeploymentPlan_total_witness:
  "(\<exists>plan. createDeploymentPlan sampleCollaborators sampleDesired sampleExisting [] = Inr plan) \<and>
   createDeploymentPlan sampleCollaborators [(''us-central1'', [scheduledC])] [] [] = Inl TypeError"
  using createDeploymentPlan_total [of sampleDesired sampleCollaborators "[]" sampleExisting]
    createDeploymentPlan_total [of "[(''us-central1'', [scheduledC])]" sampleCollaborators "[]" "[]"]
  by (simp add: flattenRegionMap_def sampleDesired_def desiredA_def scheduledB_def scheduledC_def
      sampleCollaborators_def sampleTrigger_def)

end
